theory Spec2Isabelle
  imports Complex_Main
begin

unbundle bit_operations_syntax

section \<open>JavaScript values used by the server\<close>

text \<open>
  The server is TypeScript on Node. Integers that arrive in a request (notes, velocities,
  channels, millisecond durations, raw bytes) are modelled as \<open>int\<close>; the tempo
  arithmetic of \<open>midi_play_song\<close> is modelled on \<open>rat\<close>, the exact value of the
  IEEE double the program computes whenever no rounding happens. An \<open>Error\<close> that the
  program throws is the value \<open>Error msg\<close>; a \<open>TypeError\<close> that the JavaScript
  engine throws (reading a property of \<open>undefined\<close>, iterating \<open>undefined\<close>) is the
  value \<open>TypeError msg\<close>. A request field that may be absent is an \<open>option\<close>, and
  \<open>None\<close> is JavaScript's \<open>undefined\<close>.
\<close>

datatype error = Error string | TypeError string

type_synonym handle = nat

subsection \<open>Number and string formatting\<close>

text \<open>\<open>Number.prototype.toString(radix)\<close> on an integer, for the radixes 10 and 16.\<close>

definition digitChar :: "nat \<Rightarrow> char" where
  "digitChar d = ''0123456789abcdef'' ! d"

fun natToString :: "nat \<Rightarrow> nat \<Rightarrow> string" where
  "natToString radix n =
     (if radix < 2 \<or> n < radix then [digitChar n]
      else natToString radix (n div radix) @ [digitChar (n mod radix)])"

declare natToString.simps [simp del]

definition numberToString :: "nat \<Rightarrow> int \<Rightarrow> string" where
  "numberToString radix i =
     (if i < 0 then CHR ''-'' # natToString radix (nat (- i)) else natToString radix (nat i))"

text \<open>
  Template-literal interpolation \<open>${n}\<close> of an integer (below \<open>10^21\<close> in
  absolute value, where JavaScript prints all the digits).
\<close>

definition showInt :: "int \<Rightarrow> string" where
  "showInt i = numberToString 10 i"

definition upperChar :: "char \<Rightarrow> char" where
  "upperChar c =
     (let n = (of_char c :: nat)
      in if 97 \<le> n \<and> n \<le> 122 then char_of (n - 32) else c)"

definition toUpperCase :: "string \<Rightarrow> string" where
  "toUpperCase s = map upperChar s"

definition padStart :: "nat \<Rightarrow> char \<Rightarrow> string \<Rightarrow> string" where
  "padStart n c s = replicate (n - length s) c @ s"

fun join :: "string \<Rightarrow> string list \<Rightarrow> string" where
  "join sep [] = []"
| "join sep [x] = x"
| "join sep (x # y # ys) = x @ sep @ join sep (y # ys)"

section \<open>Process state and environment\<close>

text \<open>
  What the handlers can observe of the outside world: \<open>effects\<close> lists, oldest first,
  every successful \<open>openMidiOut\<close>, every \<open>port.send\<close> and every awaited timer.
  A \<open>port.send\<close> of an array with an \<open>undefined\<close> element (a message built from a
  field that the request left out) is a \<open>SentRaw\<close> effect.
  \<open>timers\<close> holds the callbacks registered with \<open>setTimeout\<close> and not awaited
  (the deferred note-off of \<open>midi_play_note\<close>). \<open>dateReads\<close> counts the calls of
  \<open>new Date()\<close>, so that the environment can answer each with its own timestamp.
  The copy of each log line written to stderr is not modelled.

  The environment: \<open>openMidiOut\<close> is the port transport (\<open>None\<close> when opening
  throws), \<open>toISOString n\<close> the timestamp of the \<open>n\<close>-th reading of the clock,
  \<open>showNumber\<close> the text JavaScript prints for a number that need not be an integer,
  \<open>listPortsText\<close> the JSON text of the port list.
\<close>

datatype effect =
    Opened string handle
  | Sent string handle "int list"
  | Wait rat
  | SentRaw string handle "int option list"

record state =
  activeOutputs :: "string \<rightharpoonup> handle"
  midiLogs :: "string list"
  effects :: "effect list"
  timers :: "(int \<times> string \<times> int list) list"
  dateReads :: nat

record env =
  openMidiOut :: "string \<Rightarrow> handle option"
  toISOString :: "nat \<Rightarrow> string"
  showNumber :: "rat \<Rightarrow> string"
  listPortsText :: string

definition initial :: state where
  "initial = \<lparr> activeOutputs = Map.empty, midiLogs = [], effects = [], timers = [],
               dateReads = 0 \<rparr>"

section \<open>The activity log\<close>

definition MAX_LOGS :: nat where
  "MAX_LOGS = 100"

datatype direction = IN | OUT

fun directionText :: "direction \<Rightarrow> string" where
  "directionText IN = ''IN''"
| "directionText OUT = ''OUT''"

definition hexByte :: "int \<Rightarrow> string" where
  "hexByte b = ''0x'' @ padStart 2 CHR ''0'' (toUpperCase (numberToString 16 b))"

definition logLine :: "string \<Rightarrow> direction \<Rightarrow> string \<Rightarrow> int list \<Rightarrow> string" where
  "logLine timestamp dir port data =
     ''['' @ timestamp @ ''] '' @ directionText dir @ '' '' @ port @ '': ''
       @ join '' '' (map hexByte data)"

text \<open>\<open>unshift\<close> puts the line at the head; \<open>pop\<close> removes the last element.\<close>

definition logMidi :: "env \<Rightarrow> direction \<Rightarrow> string \<Rightarrow> int list \<Rightarrow> state \<Rightarrow> state" where
  "logMidi e dir port data st =
     (let timestamp = toISOString e (dateReads st);
          log = logLine timestamp dir port data;
          logs1 = log # midiLogs st;
          logs2 = (if length logs1 > MAX_LOGS then butlast logs1 else logs1)
      in st \<lparr> midiLogs := logs2, dateReads := Suc (dateReads st) \<rparr>)"

text \<open>A run of appends, and the lines they write, in the order of the calls.\<close>

fun logMany :: "env \<Rightarrow> (direction \<times> string \<times> int list) list \<Rightarrow> state \<Rightarrow> state" where
  "logMany e [] st = st"
| "logMany e ((dir, port, data) # cs) st = logMany e cs (logMidi e dir port data st)"

fun logLines :: "env \<Rightarrow> nat \<Rightarrow> (direction \<times> string \<times> int list) list \<Rightarrow> string list" where
  "logLines e n [] = []"
| "logLines e n ((dir, port, data) # cs) =
     logLine (toISOString e n) dir port data # logLines e (Suc n) cs"

section \<open>MidiService.sendMessage\<close>

text \<open>
  \<open>jzz\<close> stands for \<open>this.jzz.openMidiOut\<close>: \<open>None\<close> when the call throws, the
  opened port otherwise. The service is initialised before any handler runs
  (\<open>getMidi\<close> has returned), so the guard \<open>if (!this.jzz)\<close> is not taken. A cached
  port is an object and therefore truthy.
\<close>

definition sendMessage ::
  "(string \<Rightarrow> handle option) \<Rightarrow> string \<Rightarrow> int list \<Rightarrow> state \<Rightarrow> (error + unit) \<times> state" where
  "sendMessage jzz portName message st =
     (case activeOutputs st portName of
        Some port \<Rightarrow> (Inr (), st \<lparr> effects := effects st @ [Sent portName port message] \<rparr>)
      | None \<Rightarrow>
          (case jzz portName of
             None \<Rightarrow> (Inl (Error (''Failed to open MIDI output port: '' @ portName)), st)
           | Some port \<Rightarrow>
               (Inr (), st \<lparr> activeOutputs := (activeOutputs st)(portName \<mapsto> port),
                             effects := effects st @ [Opened portName port,
                                                      Sent portName port message] \<rparr>)))"

text \<open>
  A run of \<open>sendMessage\<close> calls over the life of the process; each call comes with what
  \<open>openMidiOut\<close> would answer at that moment, and a call that throws leaves the state
  as it is.
\<close>

fun sendCalls ::
  "((string \<Rightarrow> handle option) \<times> string \<times> int list) list \<Rightarrow> state \<Rightarrow> state" where
  "sendCalls [] st = st"
| "sendCalls ((jzz, portName, message) # cs) st =
     sendCalls cs (snd (sendMessage jzz portName message st))"

fun opensOf :: "string \<Rightarrow> effect list \<Rightarrow> handle list" where
  "opensOf name [] = []"
| "opensOf name (Opened n h # es) = (if n = name then h # opensOf name es else opensOf name es)"
| "opensOf name (_ # es) = opensOf name es"

section \<open>The tool handlers\<close>

text \<open>
  Each handler is one \<open>case\<close> of the \<open>switch\<close> in the \<open>CallToolRequestSchema\<close>
  handler, entered after \<open>getMidi()\<close> has returned the initialised service. Its
  arguments are the JSON object of the request, read through the handler's TypeScript
  type: every field of that object, at top level or inside a list item, may be absent,
  whether the type marks it optional or not, and is an \<open>option\<close>; the elements of a
  number array are numbers. The arguments object itself may be absent, which is a matter
  of the dispatcher. A handler returns the text of its result or the error it throws,
  together with the state it leaves.

  The two statements \<open>await midi.sendMessage(port, message); logMidi('OUT', port, message);\<close>
  that every handler repeats. A failed send throws before the log is written.
\<close>

definition sendAndLog :: "env \<Rightarrow> string \<Rightarrow> int list \<Rightarrow> state \<Rightarrow> (error + unit) \<times> state" where
  "sendAndLog e port message st =
     (case sendMessage (openMidiOut e) port message st of
        (Inl err, st1) \<Rightarrow> (Inl err, st1)
      | (Inr _, st1) \<Rightarrow> (Inr (), logMidi e OUT port message st1))"

text \<open>
  A message built from a field of a list item may hold \<open>undefined\<close>, since the
  handlers do not test those fields. \<open>allDefined\<close> gives the numbers of a message
  that has no such element. \<open>sendMessageRaw\<close> and \<open>logMidiRaw\<close> are
  \<open>midi.sendMessage\<close> and \<open>logMidi\<close> as called with such a message: the first
  is \<open>sendMessage\<close> when every element is a number and otherwise does the same with
  the array as it is; the second is \<open>logMidi\<close> when every element is a number and
  otherwise reads the clock and then throws at \<open>b.toString(16)\<close> for the
  \<open>undefined\<close> element, before the log is touched.
\<close>

fun allDefined :: "int option list \<Rightarrow> int list option" where
  "allDefined [] = Some []"
| "allDefined (None # xs) = None"
| "allDefined (Some x # xs) = (case allDefined xs of None \<Rightarrow> None | Some ys \<Rightarrow> Some (x # ys))"

definition sendMessageRaw ::
  "(string \<Rightarrow> handle option) \<Rightarrow> string \<Rightarrow> int option list \<Rightarrow> state
     \<Rightarrow> (error + unit) \<times> state" where
  "sendMessageRaw jzz portName raw st =
     (case allDefined raw of
        Some message \<Rightarrow> sendMessage jzz portName message st
      | None \<Rightarrow>
          (case activeOutputs st portName of
             Some port \<Rightarrow> (Inr (), st \<lparr> effects := effects st @ [SentRaw portName port raw] \<rparr>)
           | None \<Rightarrow>
               (case jzz portName of
                  None \<Rightarrow> (Inl (Error (''Failed to open MIDI output port: '' @ portName)), st)
                | Some port \<Rightarrow>
                    (Inr (), st \<lparr> activeOutputs := (activeOutputs st)(portName \<mapsto> port),
                                  effects := effects st @ [Opened portName port,
                                                           SentRaw portName port raw] \<rparr>))))"

definition logMidiRaw ::
  "env \<Rightarrow> direction \<Rightarrow> string \<Rightarrow> int option list \<Rightarrow> state \<Rightarrow> (error + unit) \<times> state" where
  "logMidiRaw e dir portName raw st =
     (case allDefined raw of
        Some data \<Rightarrow> (Inr (), logMidi e dir portName data st)
      | None \<Rightarrow>
          (Inl (TypeError ''Cannot read properties of undefined (reading 'toString')''),
           st \<lparr> dateReads := Suc (dateReads st) \<rparr>))"

definition sendAndLogRaw ::
  "env \<Rightarrow> string \<Rightarrow> int option list \<Rightarrow> state \<Rightarrow> (error + unit) \<times> state" where
  "sendAndLogRaw e portName raw st =
     (case sendMessageRaw (openMidiOut e) portName raw st of
        (Inl err, st1) \<Rightarrow> (Inl err, st1)
      | (Inr _, st1) \<Rightarrow> logMidiRaw e OUT portName raw st1)"

text \<open>\<open>await new Promise(resolve => setTimeout(resolve, duration))\<close>.\<close>

definition sleep :: "rat \<Rightarrow> state \<Rightarrow> state" where
  "sleep duration st = st \<lparr> effects := effects st @ [Wait duration] \<rparr>"

text \<open>\<open>!args.port\<close>: true for a missing port and for the empty string.\<close>

fun noPort :: "string option \<Rightarrow> bool" where
  "noPort None = True"
| "noPort (Some p) = (p = [])"

text \<open>\<open>x ?? d\<close>.\<close>

fun orElse :: "'a option \<Rightarrow> 'a \<Rightarrow> 'a" where
  "orElse None d = d"
| "orElse (Some x) d = x"

subsection \<open>midi_send\<close>

record send_args =
  port :: "string option"
  bytes :: "int list option"

definition midi_send :: "env \<Rightarrow> send_args \<Rightarrow> state \<Rightarrow> (error + string) \<times> state" where
  "midi_send e args st =
     (if noPort (send_args.port args) \<or> send_args.bytes args = None then
        (Inl (Error ''Missing arguments: port and bytes are required''), st)
      else
        (let port = the (send_args.port args);
             bytes = the (send_args.bytes args)
         in case sendAndLog e port bytes st of
              (Inl err, st1) \<Rightarrow> (Inl err, st1)
            | (Inr _, st1) \<Rightarrow> (Inr (''Sent MIDI message to '' @ port), st1)))"

subsection \<open>midi_note_on, midi_note_off\<close>

record note_args =
  port :: "string option"
  "note" :: "int option"
  velocity :: "int option"
  channel :: "int option"

definition midi_note_on :: "env \<Rightarrow> note_args \<Rightarrow> state \<Rightarrow> (error + string) \<times> state" where
  "midi_note_on e args st =
     (if noPort (note_args.port args) \<or> note_args.note args = None then
        (Inl (Error ''Missing arguments: port and note are required''), st)
      else
        (let port = the (note_args.port args);
             note = the (note_args.note args);
             velocity = orElse (note_args.velocity args) 64;
             channel = orElse (note_args.channel args) 1 - 1;
             statusByte = 0x90 + channel;
             message = [statusByte, note, velocity]
         in case sendAndLog e port message st of
              (Inl err, st1) \<Rightarrow> (Inl err, st1)
            | (Inr _, st1) \<Rightarrow>
                (Inr (''Note On: note '' @ showInt note @ '', velocity '' @ showInt velocity
                        @ '', channel '' @ showInt (channel + 1)), st1)))"

definition midi_note_off :: "env \<Rightarrow> note_args \<Rightarrow> state \<Rightarrow> (error + string) \<times> state" where
  "midi_note_off e args st =
     (if noPort (note_args.port args) \<or> note_args.note args = None then
        (Inl (Error ''Missing arguments: port and note are required''), st)
      else
        (let port = the (note_args.port args);
             note = the (note_args.note args);
             velocity = orElse (note_args.velocity args) 64;
             channel = orElse (note_args.channel args) 1 - 1;
             statusByte = 0x80 + channel;
             message = [statusByte, note, velocity]
         in case sendAndLog e port message st of
              (Inl err, st1) \<Rightarrow> (Inl err, st1)
            | (Inr _, st1) \<Rightarrow>
                (Inr (''Note Off: note '' @ showInt note @ '', velocity '' @ showInt velocity
                        @ '', channel '' @ showInt (channel + 1)), st1)))"

subsection \<open>midi_play_note\<close>

record play_note_args =
  port :: "string option"
  "note" :: "int option"
  velocity :: "int option"
  duration :: "int option"
  channel :: "int option"

text \<open>
  The note-off is left to a \<open>setTimeout\<close> callback that the handler does not await:
  the handler records it in \<open>timers\<close> and returns. \<open>noteOffCallback\<close> is the body of
  that callback, run by the event loop once the delay has passed.
\<close>

definition midi_play_note :: "env \<Rightarrow> play_note_args \<Rightarrow> state \<Rightarrow> (error + string) \<times> state" where
  "midi_play_note e args st =
     (if noPort (play_note_args.port args) \<or> play_note_args.note args = None then
        (Inl (Error ''Missing arguments: port and note are required''), st)
      else
        (let port = the (play_note_args.port args);
             note = the (play_note_args.note args);
             velocity = orElse (play_note_args.velocity args) 64;
             duration = orElse (play_note_args.duration args) 500;
             channel = orElse (play_note_args.channel args) 1 - 1;
             noteOnStatus = 0x90 + channel;
             noteOnMessage = [noteOnStatus, note, velocity]
         in case sendAndLog e port noteOnMessage st of
              (Inl err, st1) \<Rightarrow> (Inl err, st1)
            | (Inr _, st1) \<Rightarrow>
                (let noteOffStatus = 0x80 + channel;
                     noteOffMessage = [noteOffStatus, note, velocity];
                     st2 = st1 \<lparr> timers := timers st1 @ [(duration, port, noteOffMessage)] \<rparr>
                 in (Inr (''Playing note '' @ showInt note @ '' for '' @ showInt duration
                            @ ''ms (velocity '' @ showInt velocity @ '', channel ''
                            @ showInt (channel + 1) @ '')''), st2))))"

definition noteOffCallback :: "env \<Rightarrow> string \<Rightarrow> int list \<Rightarrow> state \<Rightarrow> state" where
  "noteOffCallback e portName noteOffMessage st = snd (sendAndLog e portName noteOffMessage st)"

subsection \<open>midi_control_change\<close>

record control_change_args =
  port :: "string option"
  controller :: "int option"
  "value" :: "int option"
  channel :: "int option"

definition midi_control_change ::
  "env \<Rightarrow> control_change_args \<Rightarrow> state \<Rightarrow> (error + string) \<times> state" where
  "midi_control_change e args st =
     (if noPort (control_change_args.port args) \<or> control_change_args.controller args = None
           \<or> control_change_args.value args = None then
        (Inl (Error ''Missing arguments: port, controller, and value are required''), st)
      else
        (let port = the (control_change_args.port args);
             controller = the (control_change_args.controller args);
             val = the (control_change_args.value args);
             channel = orElse (control_change_args.channel args) 1 - 1;
             statusByte = 0xB0 + channel;
             message = [statusByte, controller, val]
         in case sendAndLog e port message st of
              (Inl err, st1) \<Rightarrow> (Inl err, st1)
            | (Inr _, st1) \<Rightarrow>
                (Inr (''CC: controller '' @ showInt controller @ '', value '' @ showInt val
                        @ '', channel '' @ showInt (channel + 1)), st1)))"

subsection \<open>midi_program_change\<close>

record program_change_args =
  port :: "string option"
  program :: "int option"
  channel :: "int option"

definition midi_program_change ::
  "env \<Rightarrow> program_change_args \<Rightarrow> state \<Rightarrow> (error + string) \<times> state" where
  "midi_program_change e args st =
     (if noPort (program_change_args.port args) \<or> program_change_args.program args = None then
        (Inl (Error ''Missing arguments: port and program are required''), st)
      else
        (let port = the (program_change_args.port args);
             program = the (program_change_args.program args);
             channel = orElse (program_change_args.channel args) 1 - 1;
             statusByte = 0xC0 + channel;
             message = [statusByte, program]
         in case sendAndLog e port message st of
              (Inl err, st1) \<Rightarrow> (Inl err, st1)
            | (Inr _, st1) \<Rightarrow>
                (Inr (''Program Change: program '' @ showInt program @ '', channel ''
                        @ showInt (channel + 1)), st1)))"

subsection \<open>midi_pitch_bend\<close>

text \<open>
  JavaScript's \<open>&\<close> and \<open>>>\<close> first convert their operands to 32-bit signed integers;
  \<open>>>\<close> keeps the sign and uses the low five bits of the shift count.
\<close>

definition toInt32 :: "int \<Rightarrow> int" where
  "toInt32 x = signed_take_bit 31 x"

definition bitAnd :: "int \<Rightarrow> int \<Rightarrow> int" where
  "bitAnd a b = toInt32 a AND toInt32 b"

definition shiftRight :: "int \<Rightarrow> nat \<Rightarrow> int" where
  "shiftRight a n = drop_bit (n mod 32) (toInt32 a)"

record pitch_bend_args =
  port :: "string option"
  "value" :: "int option"
  channel :: "int option"

definition midi_pitch_bend ::
  "env \<Rightarrow> pitch_bend_args \<Rightarrow> state \<Rightarrow> (error + string) \<times> state" where
  "midi_pitch_bend e args st =
     (if noPort (pitch_bend_args.port args) \<or> pitch_bend_args.value args = None then
        (Inl (Error ''Missing arguments: port and value are required''), st)
      else
        (let port = the (pitch_bend_args.port args);
             val = the (pitch_bend_args.value args);
             channel = orElse (pitch_bend_args.channel args) 1 - 1;
             bendValue = val + 8192;
             lsb = bitAnd bendValue 0x7F;
             msb = bitAnd (shiftRight bendValue 7) 0x7F;
             statusByte = 0xE0 + channel;
             message = [statusByte, lsb, msb]
         in case sendAndLog e port message st of
              (Inl err, st1) \<Rightarrow> (Inl err, st1)
            | (Inr _, st1) \<Rightarrow>
                (Inr (''Pitch Bend: '' @ showInt val @ '', channel '' @ showInt (channel + 1)),
                 st1)))"

subsection \<open>midi_play_sequence\<close>

record sequence_note =
  "note" :: "int option"
  velocity :: "int option"
  duration :: "int option"

record play_sequence_args =
  port :: "string option"
  "notes" :: "sequence_note list option"
  channel :: "int option"

text \<open>The \<open>for (const noteInfo of args.notes)\<close> loop; \<open>totalDuration\<close> is the running sum.\<close>

fun playSequenceLoop ::
  "env \<Rightarrow> string \<Rightarrow> int \<Rightarrow> int \<Rightarrow> sequence_note list \<Rightarrow> int \<Rightarrow> state \<Rightarrow> (error + int) \<times> state" where
  "playSequenceLoop e portName noteOnStatus noteOffStatus [] totalDuration st = (Inr totalDuration, st)"
| "playSequenceLoop e portName noteOnStatus noteOffStatus (noteInfo # rest) totalDuration st =
     (let velocity = orElse (sequence_note.velocity noteInfo) 64;
          duration = orElse (sequence_note.duration noteInfo) 500;
          noteOnMessage = [Some noteOnStatus, sequence_note.note noteInfo, Some velocity]
      in case sendAndLogRaw e portName noteOnMessage st of
           (Inl err, st1) \<Rightarrow> (Inl err, st1)
         | (Inr _, st1) \<Rightarrow>
             (let st2 = sleep (of_int duration) st1;
                  noteOffMessage = [Some noteOffStatus, sequence_note.note noteInfo,
                                    Some velocity]
              in case sendAndLogRaw e portName noteOffMessage st2 of
                   (Inl err, st3) \<Rightarrow> (Inl err, st3)
                 | (Inr _, st3) \<Rightarrow>
                     playSequenceLoop e portName noteOnStatus noteOffStatus rest
                       (totalDuration + duration) st3))"

definition midi_play_sequence ::
  "env \<Rightarrow> play_sequence_args \<Rightarrow> state \<Rightarrow> (error + string) \<times> state" where
  "midi_play_sequence e args st =
     (if noPort (play_sequence_args.port args) \<or> play_sequence_args.notes args = None
           \<or> length (the (play_sequence_args.notes args)) = 0 then
        (Inl (Error ''Missing arguments: port and notes are required''), st)
      else
        (let port = the (play_sequence_args.port args);
             notes = the (play_sequence_args.notes args);
             channel = orElse (play_sequence_args.channel args) 1 - 1;
             noteOnStatus = 0x90 + channel;
             noteOffStatus = 0x80 + channel
         in case playSequenceLoop e port noteOnStatus noteOffStatus notes 0 st of
              (Inl err, st1) \<Rightarrow> (Inl err, st1)
            | (Inr totalDuration, st1) \<Rightarrow>
                (Inr (''Played sequence of '' @ showInt (int (length notes)) @ '' notes (''
                        @ showInt totalDuration @ ''ms total) on channel ''
                        @ showInt (channel + 1)), st1)))"

subsection \<open>midi_play_chord\<close>

record play_chord_args =
  port :: "string option"
  "notes" :: "int list option"
  velocity :: "int option"
  duration :: "int option"
  channel :: "int option"

text \<open>
  The loop \<open>for (const note of args.notes)\<close> that builds \<open>[status, note, velocity]\<close>,
  sends it and logs it; the handler runs it once for the note-ons and once for the
  note-offs.
\<close>

fun sendNotes ::
  "env \<Rightarrow> string \<Rightarrow> int \<Rightarrow> int \<Rightarrow> int list \<Rightarrow> state \<Rightarrow> (error + unit) \<times> state" where
  "sendNotes e portName status vel [] st = (Inr (), st)"
| "sendNotes e portName status vel (n # rest) st =
     (case sendAndLog e portName [status, n, vel] st of
        (Inl err, st1) \<Rightarrow> (Inl err, st1)
      | (Inr _, st1) \<Rightarrow> sendNotes e portName status vel rest st1)"

definition midi_play_chord ::
  "env \<Rightarrow> play_chord_args \<Rightarrow> state \<Rightarrow> (error + string) \<times> state" where
  "midi_play_chord e args st =
     (if noPort (play_chord_args.port args) \<or> play_chord_args.notes args = None
           \<or> length (the (play_chord_args.notes args)) = 0 then
        (Inl (Error ''Missing arguments: port and notes are required''), st)
      else
        (let port = the (play_chord_args.port args);
             notes = the (play_chord_args.notes args);
             channel = orElse (play_chord_args.channel args) 1 - 1;
             velocity = orElse (play_chord_args.velocity args) 64;
             duration = orElse (play_chord_args.duration args) 500;
             noteOnStatus = 0x90 + channel;
             noteOffStatus = 0x80 + channel
         in case sendNotes e port noteOnStatus velocity notes st of
              (Inl err, st1) \<Rightarrow> (Inl err, st1)
            | (Inr _, st1) \<Rightarrow>
                (let st2 = sleep (of_int duration) st1
                 in case sendNotes e port noteOffStatus velocity notes st2 of
                      (Inl err, st3) \<Rightarrow> (Inl err, st3)
                    | (Inr _, st3) \<Rightarrow>
                        (Inr (''Played chord with '' @ showInt (int (length notes))
                                @ '' notes for '' @ showInt duration @ ''ms on channel ''
                                @ showInt (channel + 1)), st3))))"

subsection \<open>midi_play_song\<close>

record cc_spec =
  controller :: "int option"
  "value" :: "int option"

datatype note_spec = Single int | Chord "int list"

datatype duration_spec = Number rat | Text string

record note_event =
  "note" :: "note_spec option"
  duration :: "duration_spec option"
  velocity :: "int option"
  cc :: "cc_spec option"

record track =
  port :: "string option"
  channel :: "int option"
  instrument :: "int option"
  loop :: "int option"
  "notes" :: "note_event list option"

record play_song_args =
  port :: "string option"
  bpm :: "rat option"
  tracks :: "track list option"

text \<open>
  Milliseconds per beat. The program divides doubles; the model divides rationals, which
  agrees with it wherever the double arithmetic is exact and \<open>bpm\<close> is not zero.
\<close>

definition beatDurationOf :: "rat \<Rightarrow> rat" where
  "beatDurationOf bpmValue = (60 / bpmValue) * 1000"

definition getDuration :: "rat \<Rightarrow> duration_spec \<Rightarrow> rat" where
  "getDuration beatDuration dur =
     (case dur of
        Number d \<Rightarrow> d * beatDuration
      | Text s \<Rightarrow>
          if s = ''whole'' then beatDuration * 4
          else if s = ''half'' then beatDuration * 2
          else if s = ''quarter'' then beatDuration
          else if s = ''eighth'' then beatDuration / 2
          else if s = ''sixteenth'' then beatDuration / 4
          else beatDuration)"

text \<open>
  The tracks of a song run as concurrent \<open>async\<close> functions on one event loop. What a
  track does is fixed by its arguments: a sequence of sends, log writes and timer waits,
  with a suspension point after each send and at each wait, ended early by a throw where
  the track has no \<open>notes\<close> to iterate. \<open>trackActions\<close> lists that sequence in
  program order; the event loop interleaves the sequences of the tracks. The messages are
  arrays that may hold \<open>undefined\<close>, since they are built from fields of list items.
\<close>

datatype action =
    ASend string "int option list"
  | ALog string "int option list"
  | AWait rat
  | AThrow error

text \<open>\<open>for (const note of notes)\<close>: build the message, send it, log it.\<close>

fun noteActions :: "string \<Rightarrow> int \<Rightarrow> int \<Rightarrow> int option list \<Rightarrow> action list" where
  "noteActions trackPort status vel [] = []"
| "noteActions trackPort status vel (n # rest) =
     ASend trackPort [Some status, n, Some vel] # ALog trackPort [Some status, n, Some vel]
       # noteActions trackPort status vel rest"

text \<open>
  One pass of the body of the inner loop. \<open>getDuration(undefined)\<close> takes the
  \<open>default\<close> branch of the \<open>switch\<close>; \<open>Array.isArray(undefined)\<close> is false, so an
  event without \<open>note\<close> has the one note \<open>undefined\<close>.
\<close>

definition eventActions :: "rat \<Rightarrow> string \<Rightarrow> int \<Rightarrow> note_event \<Rightarrow> action list" where
  "eventActions beatDuration trackPort chan noteEvent =
     (let velocity = orElse (note_event.velocity noteEvent) 64;
          duration =
            (case note_event.duration noteEvent of
               Some d \<Rightarrow> getDuration beatDuration d
             | None \<Rightarrow> beatDuration);
          notes =
            (case note_event.note noteEvent of
               Some (Chord ns) \<Rightarrow> map Some ns
             | Some (Single n) \<Rightarrow> [Some n]
             | None \<Rightarrow> [None]);
          ccActions =
            (case note_event.cc noteEvent of
               Some c \<Rightarrow>
                 (let ccMessage = [Some (0xB0 + chan), cc_spec.controller c, cc_spec.value c]
                  in [ASend trackPort ccMessage, ALog trackPort ccMessage])
             | None \<Rightarrow> []);
          noteOnStatus = 0x90 + chan;
          noteOffStatus = 0x80 + chan
      in ccActions @ noteActions trackPort noteOnStatus velocity notes @ [AWait duration]
           @ noteActions trackPort noteOffStatus velocity notes)"

text \<open>
  \<open>for (const noteEvent of track.notes)\<close>; iterating \<open>undefined\<close> throws.
\<close>

fun eventsActions :: "rat \<Rightarrow> string \<Rightarrow> int \<Rightarrow> note_event list \<Rightarrow> action list" where
  "eventsActions beatDuration trackPort chan [] = []"
| "eventsActions beatDuration trackPort chan (noteEvent # rest) =
     eventActions beatDuration trackPort chan noteEvent
       @ eventsActions beatDuration trackPort chan rest"

definition iterateNotes ::
  "rat \<Rightarrow> string \<Rightarrow> int \<Rightarrow> note_event list option \<Rightarrow> action list" where
  "iterateNotes beatDuration trackPort chan trackNotes =
     (case trackNotes of
        Some noteEvents \<Rightarrow> eventsActions beatDuration trackPort chan noteEvents
      | None \<Rightarrow> [AThrow (TypeError ''track.notes is not iterable'')])"

text \<open>\<open>for (let loop = 0; loop < loops; loop++)\<close>.\<close>

function loopActions :: "int \<Rightarrow> int \<Rightarrow> action list \<Rightarrow> action list" where
  "loopActions i loops body =
     (if i < loops then body @ loopActions (i + 1) loops body else [])"
  by pat_completeness auto
termination
  by (relation "measure (\<lambda>(i, loops, body). nat (loops - i))") auto

declare loopActions.simps [simp del]

definition trackActions :: "string \<Rightarrow> rat \<Rightarrow> track \<Rightarrow> action list" where
  "trackActions argsPort beatDuration t =
     (let trackPort = orElse (track.port t) argsPort;
          channel = orElse (track.channel t) 1 - 1;
          loops = orElse (track.loop t) 1;
          programActions =
            (case track.instrument t of
               Some ins \<Rightarrow>
                 (let programChange = [Some (0xC0 + channel), Some ins]
                  in [ASend trackPort programChange, ALog trackPort programChange])
             | None \<Rightarrow> [])
      in programActions
           @ loopActions 0 loops (iterateNotes beatDuration trackPort channel (track.notes t)))"

fun execAction :: "env \<Rightarrow> action \<Rightarrow> state \<Rightarrow> (error + unit) \<times> state" where
  "execAction e (ASend p raw) st = sendMessageRaw (openMidiOut e) p raw st"
| "execAction e (ALog p raw) st = logMidiRaw e OUT p raw st"
| "execAction e (AWait d) st = (Inr (), sleep d st)"
| "execAction e (AThrow err) st = (Inl err, st)"

text \<open>
  A track is \<open>Running\<close> with the actions it still has to perform (none left: it has
  returned), or has \<open>Failed\<close> with the error that was thrown in it. \<open>performed\<close> records, for
  the whole song, which track performed which action, in the order of the event loop;
  \<open>rejected\<close> is the first error, the one \<open>Promise.all\<close> rejects with.
\<close>

datatype thread = Running "action list" | Failed error

record song_run =
  threads :: "thread list"
  world :: state
  performed :: "(nat \<times> action) list"
  rejected :: "error option"

definition stepTrack :: "env \<Rightarrow> nat \<Rightarrow> song_run \<Rightarrow> song_run" where
  "stepTrack e i run =
     (if i < length (threads run) then
        (case threads run ! i of
           Running (a # rest) \<Rightarrow>
             (case execAction e a (world run) of
                (Inl err, st1) \<Rightarrow>
                  run \<lparr> threads := (threads run)[i := Failed err], world := st1,
                        rejected := (case rejected run of None \<Rightarrow> Some err | Some r \<Rightarrow> Some r) \<rparr>
              | (Inr _, st1) \<Rightarrow>
                  run \<lparr> threads := (threads run)[i := Running rest], world := st1,
                        performed := performed run @ [(i, a)] \<rparr>)
         | _ \<Rightarrow> run)
      else run)"

text \<open>
  The event loop's choices are the schedule: the list of the tracks it resumes, in order.
  Every interleaving the real event loop can produce is one of these schedules.
\<close>

fun runSchedule :: "env \<Rightarrow> nat list \<Rightarrow> song_run \<Rightarrow> song_run" where
  "runSchedule e [] run = run"
| "runSchedule e (i # sched) run = runSchedule e sched (stepTrack e i run)"

definition startSong :: "string \<Rightarrow> rat \<Rightarrow> track list \<Rightarrow> state \<Rightarrow> song_run" where
  "startSong argsPort beatDuration ts st =
     \<lparr> threads = map (\<lambda>t. Running (trackActions argsPort beatDuration t)) ts,
       world = st, performed = [], rejected = None \<rparr>"

fun finished :: "thread \<Rightarrow> bool" where
  "finished (Running acts) = (acts = [])"
| "finished (Failed err) = True"

text \<open>
  The handler's result after the schedule: an error as soon as one track has failed, the
  summary once every track has returned, \<open>None\<close> while the call is still in flight.
\<close>

definition midi_play_song ::
  "env \<Rightarrow> nat list \<Rightarrow> play_song_args \<Rightarrow> state \<Rightarrow> (error + string) option \<times> state" where
  "midi_play_song e sched args st =
     (if noPort (play_song_args.port args) \<or> play_song_args.tracks args = None
           \<or> length (the (play_song_args.tracks args)) = 0 then
        (Some (Inl (Error ''Missing arguments: port and tracks are required'')), st)
      else
        (let port = the (play_song_args.port args);
             tracks = the (play_song_args.tracks args);
             bpm = orElse (play_song_args.bpm args) 120;
             beatDuration = beatDurationOf bpm;
             run = runSchedule e sched (startSong port beatDuration tracks st)
         in case rejected run of
              Some err \<Rightarrow> (Some (Inl err), world run)
            | None \<Rightarrow>
                if list_all finished (threads run) then
                  (Some (Inr (''Played song with '' @ showInt (int (length tracks))
                                @ '' tracks at '' @ showNumber e bpm @ '' BPM'')), world run)
                else (None, world run)))"

subsection \<open>The dispatcher\<close>

text \<open>
  A request names a tool and may carry an arguments object. Every handler but
  \<open>midi_list_ports\<close> begins by reading \<open>args.port\<close>; without an arguments object
  that read throws.
\<close>

datatype request =
    Midi_list_ports
  | Midi_send "send_args option"
  | Midi_note_on "note_args option"
  | Midi_note_off "note_args option"
  | Midi_play_note "play_note_args option"
  | Midi_control_change "control_change_args option"
  | Midi_program_change "program_change_args option"
  | Midi_pitch_bend "pitch_bend_args option"
  | Midi_play_sequence "play_sequence_args option"
  | Midi_play_chord "play_chord_args option"
  | Midi_play_song "play_song_args option"
  | Unknown_tool string

definition readPortOfUndefined :: error where
  "readPortOfUndefined = TypeError ''Cannot read properties of undefined (reading 'port')''"

definition settled :: "(error + string) \<times> state \<Rightarrow> (error + string) option \<times> state" where
  "settled r = (Some (fst r), snd r)"

fun callTool ::
  "env \<Rightarrow> nat list \<Rightarrow> request \<Rightarrow> state \<Rightarrow> (error + string) option \<times> state" where
  "callTool e sched Midi_list_ports st = (Some (Inr (listPortsText e)), st)"
| "callTool e sched (Midi_send None) st = (Some (Inl readPortOfUndefined), st)"
| "callTool e sched (Midi_send (Some args)) st = settled (midi_send e args st)"
| "callTool e sched (Midi_note_on None) st = (Some (Inl readPortOfUndefined), st)"
| "callTool e sched (Midi_note_on (Some args)) st = settled (midi_note_on e args st)"
| "callTool e sched (Midi_note_off None) st = (Some (Inl readPortOfUndefined), st)"
| "callTool e sched (Midi_note_off (Some args)) st = settled (midi_note_off e args st)"
| "callTool e sched (Midi_play_note None) st = (Some (Inl readPortOfUndefined), st)"
| "callTool e sched (Midi_play_note (Some args)) st = settled (midi_play_note e args st)"
| "callTool e sched (Midi_control_change None) st = (Some (Inl readPortOfUndefined), st)"
| "callTool e sched (Midi_control_change (Some args)) st = settled (midi_control_change e args st)"
| "callTool e sched (Midi_program_change None) st = (Some (Inl readPortOfUndefined), st)"
| "callTool e sched (Midi_program_change (Some args)) st = settled (midi_program_change e args st)"
| "callTool e sched (Midi_pitch_bend None) st = (Some (Inl readPortOfUndefined), st)"
| "callTool e sched (Midi_pitch_bend (Some args)) st = settled (midi_pitch_bend e args st)"
| "callTool e sched (Midi_play_sequence None) st = (Some (Inl readPortOfUndefined), st)"
| "callTool e sched (Midi_play_sequence (Some args)) st = settled (midi_play_sequence e args st)"
| "callTool e sched (Midi_play_chord None) st = (Some (Inl readPortOfUndefined), st)"
| "callTool e sched (Midi_play_chord (Some args)) st = settled (midi_play_chord e args st)"
| "callTool e sched (Midi_play_song None) st = (Some (Inl readPortOfUndefined), st)"
| "callTool e sched (Midi_play_song (Some args)) st = midi_play_song e sched args st"
| "callTool e sched (Unknown_tool name) st = (Some (Inl (Error ''Unknown tool'')), st)"

section \<open>Example inputs\<close>

text \<open>
  A machine with one MIDI output, \<open>loopMIDI\<close>, whose clock answers \<open>T0\<close>, \<open>T1\<close>, ...
\<close>

definition testEnv :: env where
  "testEnv = \<lparr> openMidiOut = (\<lambda>name. if name = ''loopMIDI'' then Some 7 else None),
               toISOString = (\<lambda>n. ''T'' @ showInt (int n)),
               showNumber = (\<lambda>r. showInt \<lfloor>r\<rfloor>),
               listPortsText = ''[]'' \<rparr>"

definition hundredNoteOns :: "(direction \<times> string \<times> int list) list" where
  "hundredNoteOns = replicate 100 (OUT, ''loopMIDI'', [144, 60, 100])"

text \<open>
  Three calls of \<open>sendMessage\<close>: the second finds the transport unable to open
  anything, the third names a port that does not exist.
\<close>

definition exampleCalls :: "((string \<Rightarrow> handle option) \<times> string \<times> int list) list" where
  "exampleCalls =
     [(openMidiOut testEnv, ''loopMIDI'', [144, 60, 100]),
      ((\<lambda>n. None), ''loopMIDI'', [128, 60, 100]),
      (openMidiOut testEnv, ''nowhere'', [144, 60, 100])]"

text \<open>The two-note sequence: 60 for 200 ms, then 62 for 300 ms.\<close>

definition twoNotes :: "sequence_note list" where
  "twoNotes =
     [\<lparr> sequence_note.note = Some 60, sequence_note.velocity = None, sequence_note.duration = Some 200 \<rparr>,
      \<lparr> sequence_note.note = Some 62, sequence_note.velocity = None, sequence_note.duration = Some 300 \<rparr>]"

text \<open>
  A song of two tracks on the default port: a one-event track on channel 2 with a program
  change, a control change and two loops, and a track holding one two-note chord; and an
  order in which the event loop may resume them.
\<close>

definition exampleTracks :: "track list" where
  "exampleTracks =
     [\<lparr> track.port = None, track.channel = Some 2, track.instrument = Some 5,
        track.loop = Some 2,
        track.notes = Some
          [\<lparr> note_event.note = Some (Single 60), note_event.duration = Some (Text ''quarter''),
             note_event.velocity = None,
             note_event.cc = Some \<lparr> cc_spec.controller = Some 7,
                                      cc_spec.value = Some 100 \<rparr> \<rparr>] \<rparr>,
      \<lparr> track.port = None, track.channel = None, track.instrument = None, track.loop = None,
        track.notes = Some
          [\<lparr> note_event.note = Some (Chord [60, 64]), note_event.duration = Some (Number 2),
             note_event.velocity = Some 90, note_event.cc = None \<rparr>] \<rparr>]"

definition exampleSchedule :: "nat list" where
  "exampleSchedule = [0, 1, 0, 1, 0, 1, 0, 1, 0, 1, 0, 1, 0, 1, 0, 1, 0, 1, 0, 0, 0, 0, 0, 0, 0]"

text \<open>
  A song whose one track names an instrument and has no \<open>notes\<close>, and a note-on
  request that carries no arguments object.
\<close>

definition trackWithoutNotes :: track where
  "trackWithoutNotes =
     \<lparr> track.port = None, track.channel = None, track.instrument = Some 5,
       track.loop = None, track.notes = None \<rparr>"

definition songWithoutNotes :: request where
  "songWithoutNotes =
     Midi_play_song (Some \<lparr> play_song_args.port = Some ''loopMIDI'',
       play_song_args.bpm = None, play_song_args.tracks = Some [trackWithoutNotes] \<rparr>)"

section \<open>Vocabulary of the statements\<close>

text \<open>
  The port a send to \<open>p\<close> uses in state \<open>st\<close>: the cached one, or else the one
  \<open>openMidiOut\<close> gives; and the \<open>Opened\<close> effect that such a send puts before its
  \<open>Sent\<close> effect when the port was not cached.
\<close>

definition handleFor :: "env \<Rightarrow> state \<Rightarrow> string \<Rightarrow> handle option" where
  "handleFor e st p = (case activeOutputs st p of Some h \<Rightarrow> Some h | None \<Rightarrow> openMidiOut e p)"

definition firstOpen :: "state \<Rightarrow> string \<Rightarrow> handle \<Rightarrow> effect list" where
  "firstOpen st p h = (case activeOutputs st p of Some _ \<Rightarrow> [] | None \<Rightarrow> [Opened p h])"

text \<open>
  The cache agrees with the record of effects: a name has been opened exactly when it is
  cached, once, with the cached port; and every send used the cached port of its name.
\<close>

definition cacheOk :: "state \<Rightarrow> bool" where
  "cacheOk st \<longleftrightarrow>
     (\<forall>n. opensOf n (effects st) = (case activeOutputs st n of None \<Rightarrow> [] | Some h \<Rightarrow> [h]))
     \<and> (\<forall>n h m. Sent n h m \<in> set (effects st) \<longrightarrow> activeOutputs st n = Some h)"

text \<open>
  The required top-level fields that are absent from the arguments object of a request:
  \<open>port\<close> for every tool that sends, and the other fields that the tool's input
  schema lists under \<open>required\<close>. A request without an arguments object has none to
  look into.
\<close>

definition absent :: "string \<Rightarrow> 'a option \<Rightarrow> string list" where
  "absent name field = (if field = None then [name] else [])"

fun omitted :: "request \<Rightarrow> string list" where
  "omitted (Midi_send (Some a)) =
     absent ''port'' (send_args.port a) @ absent ''bytes'' (send_args.bytes a)"
| "omitted (Midi_note_on (Some a)) =
     absent ''port'' (note_args.port a) @ absent ''note'' (note_args.note a)"
| "omitted (Midi_note_off (Some a)) =
     absent ''port'' (note_args.port a) @ absent ''note'' (note_args.note a)"
| "omitted (Midi_play_note (Some a)) =
     absent ''port'' (play_note_args.port a) @ absent ''note'' (play_note_args.note a)"
| "omitted (Midi_control_change (Some a)) =
     absent ''port'' (control_change_args.port a)
       @ absent ''controller'' (control_change_args.controller a)
       @ absent ''value'' (control_change_args.value a)"
| "omitted (Midi_program_change (Some a)) =
     absent ''port'' (program_change_args.port a)
       @ absent ''program'' (program_change_args.program a)"
| "omitted (Midi_pitch_bend (Some a)) =
     absent ''port'' (pitch_bend_args.port a) @ absent ''value'' (pitch_bend_args.value a)"
| "omitted (Midi_play_sequence (Some a)) =
     absent ''port'' (play_sequence_args.port a) @ absent ''notes'' (play_sequence_args.notes a)"
| "omitted (Midi_play_chord (Some a)) =
     absent ''port'' (play_chord_args.port a) @ absent ''notes'' (play_chord_args.notes a)"
| "omitted (Midi_play_song (Some a)) =
     absent ''port'' (play_song_args.port a) @ absent ''tracks'' (play_song_args.tracks a)"
| "omitted req = []"

text \<open>The message names the field: the field's name occurs in it.\<close>

definition mentions :: "string \<Rightarrow> string \<Rightarrow> bool" where
  "mentions msg name \<longleftrightarrow> (\<exists>before after. msg = before @ name @ after)"

text \<open>
  The ranges that the tools' input schemas declare for their numeric fields
  (\<open>minimum\<close> and \<open>maximum\<close>); an absent field is within its range.
\<close>

fun inRange :: "int \<Rightarrow> int \<Rightarrow> int option \<Rightarrow> bool" where
  "inRange lo hi None = True"
| "inRange lo hi (Some v) = (lo \<le> v \<and> v \<le> hi)"

fun atLeast1 :: "int option \<Rightarrow> bool" where
  "atLeast1 None = True"
| "atLeast1 (Some v) = (1 \<le> v)"

definition sequenceNoteInRange :: "sequence_note \<Rightarrow> bool" where
  "sequenceNoteInRange i \<longleftrightarrow>
     inRange 0 127 (sequence_note.note i) \<and> inRange 0 127 (sequence_note.velocity i)
     \<and> atLeast1 (sequence_note.duration i)"

definition noteEventInRange :: "note_event \<Rightarrow> bool" where
  "noteEventInRange ev \<longleftrightarrow>
     inRange 0 127 (note_event.velocity ev)
     \<and> (case note_event.cc ev of
           None \<Rightarrow> True
         | Some c \<Rightarrow> inRange 0 127 (cc_spec.controller c) \<and> inRange 0 127 (cc_spec.value c))"

definition trackInRange :: "track \<Rightarrow> bool" where
  "trackInRange t \<longleftrightarrow>
     inRange 1 16 (track.channel t) \<and> inRange 0 127 (track.instrument t)
     \<and> atLeast1 (track.loop t)
     \<and> (case track.notes t of None \<Rightarrow> True | Some evs \<Rightarrow> list_all noteEventInRange evs)"

fun withinSchema :: "request \<Rightarrow> bool" where
  "withinSchema (Midi_send (Some a)) =
     (case send_args.bytes a of
        None \<Rightarrow> True
      | Some bs \<Rightarrow> list_all (\<lambda>b. inRange 0 255 (Some b)) bs)"
| "withinSchema (Midi_note_on (Some a)) =
     (inRange 0 127 (note_args.note a) \<and> inRange 0 127 (note_args.velocity a)
      \<and> inRange 1 16 (note_args.channel a))"
| "withinSchema (Midi_note_off (Some a)) =
     (inRange 0 127 (note_args.note a) \<and> inRange 0 127 (note_args.velocity a)
      \<and> inRange 1 16 (note_args.channel a))"
| "withinSchema (Midi_play_note (Some a)) =
     (inRange 0 127 (play_note_args.note a) \<and> inRange 0 127 (play_note_args.velocity a)
      \<and> atLeast1 (play_note_args.duration a) \<and> inRange 1 16 (play_note_args.channel a))"
| "withinSchema (Midi_control_change (Some a)) =
     (inRange 0 127 (control_change_args.controller a)
      \<and> inRange 0 127 (control_change_args.value a)
      \<and> inRange 1 16 (control_change_args.channel a))"
| "withinSchema (Midi_program_change (Some a)) =
     (inRange 0 127 (program_change_args.program a)
      \<and> inRange 1 16 (program_change_args.channel a))"
| "withinSchema (Midi_pitch_bend (Some a)) =
     (inRange (- 8192) 8191 (pitch_bend_args.value a)
      \<and> inRange 1 16 (pitch_bend_args.channel a))"
| "withinSchema (Midi_play_sequence (Some a)) =
     ((case play_sequence_args.notes a of
         None \<Rightarrow> True
       | Some items \<Rightarrow> list_all sequenceNoteInRange items)
      \<and> inRange 1 16 (play_sequence_args.channel a))"
| "withinSchema (Midi_play_chord (Some a)) =
     ((case play_chord_args.notes a of
         None \<Rightarrow> True
       | Some ns \<Rightarrow> list_all (\<lambda>n. inRange 0 127 (Some n)) ns)
      \<and> inRange 0 127 (play_chord_args.velocity a) \<and> atLeast1 (play_chord_args.duration a)
      \<and> inRange 1 16 (play_chord_args.channel a))"
| "withinSchema (Midi_play_song (Some a)) =
     ((case play_song_args.bpm a of None \<Rightarrow> True | Some b \<Rightarrow> 20 \<le> b \<and> b \<le> 300)
      \<and> (case play_song_args.tracks a of
            None \<Rightarrow> True
          | Some ts \<Rightarrow> list_all trackInRange ts))"
| "withinSchema req = True"

text \<open>
  A request that a handler carries out: it has its arguments object, it passes the test
  at the head of its handler (the required top-level fields are there, the port is not the
  empty string, a list of notes or tracks is not empty), and the items of its lists have
  the fields their handler reads without testing: a sequence item its \<open>note\<close>, a track
  its \<open>notes\<close>, an event its \<open>note\<close> and \<open>duration\<close>, a control change its
  \<open>controller\<close> and \<open>value\<close>. Nothing here looks at the value of a number.
  \<open>portsOf\<close> lists the ports the request sends to.
\<close>

definition eventComplete :: "note_event \<Rightarrow> bool" where
  "eventComplete ev \<longleftrightarrow>
     note_event.note ev \<noteq> None \<and> note_event.duration ev \<noteq> None
     \<and> (case note_event.cc ev of
           None \<Rightarrow> True
         | Some x \<Rightarrow> cc_spec.controller x \<noteq> None \<and> cc_spec.value x \<noteq> None)"

definition trackComplete :: "track \<Rightarrow> bool" where
  "trackComplete t \<longleftrightarrow>
     (case track.notes t of None \<Rightarrow> False | Some evs \<Rightarrow> list_all eventComplete evs)"

fun wellFormed :: "request \<Rightarrow> bool" where
  "wellFormed Midi_list_ports = True"
| "wellFormed (Midi_send (Some a)) =
     (\<not> noPort (send_args.port a) \<and> send_args.bytes a \<noteq> None)"
| "wellFormed (Midi_note_on (Some a)) =
     (\<not> noPort (note_args.port a) \<and> note_args.note a \<noteq> None)"
| "wellFormed (Midi_note_off (Some a)) =
     (\<not> noPort (note_args.port a) \<and> note_args.note a \<noteq> None)"
| "wellFormed (Midi_play_note (Some a)) =
     (\<not> noPort (play_note_args.port a) \<and> play_note_args.note a \<noteq> None)"
| "wellFormed (Midi_control_change (Some a)) =
     (\<not> noPort (control_change_args.port a) \<and> control_change_args.controller a \<noteq> None
      \<and> control_change_args.value a \<noteq> None)"
| "wellFormed (Midi_program_change (Some a)) =
     (\<not> noPort (program_change_args.port a) \<and> program_change_args.program a \<noteq> None)"
| "wellFormed (Midi_pitch_bend (Some a)) =
     (\<not> noPort (pitch_bend_args.port a) \<and> pitch_bend_args.value a \<noteq> None)"
| "wellFormed (Midi_play_sequence (Some a)) =
     (\<not> noPort (play_sequence_args.port a)
      \<and> (case play_sequence_args.notes a of
            None \<Rightarrow> False
          | Some items \<Rightarrow>
              items \<noteq> [] \<and> list_all (\<lambda>i. sequence_note.note i \<noteq> None) items))"
| "wellFormed (Midi_play_chord (Some a)) =
     (\<not> noPort (play_chord_args.port a)
      \<and> (case play_chord_args.notes a of None \<Rightarrow> False | Some ns \<Rightarrow> ns \<noteq> []))"
| "wellFormed (Midi_play_song (Some a)) =
     (\<not> noPort (play_song_args.port a)
      \<and> (case play_song_args.tracks a of
            None \<Rightarrow> False
          | Some ts \<Rightarrow> ts \<noteq> [] \<and> list_all trackComplete ts))"
| "wellFormed req = False"

fun named :: "string option \<Rightarrow> string list" where
  "named None = []"
| "named (Some p) = [p]"

fun portsOf :: "request \<Rightarrow> string list" where
  "portsOf (Midi_send (Some a)) = named (send_args.port a)"
| "portsOf (Midi_note_on (Some a)) = named (note_args.port a)"
| "portsOf (Midi_note_off (Some a)) = named (note_args.port a)"
| "portsOf (Midi_play_note (Some a)) = named (play_note_args.port a)"
| "portsOf (Midi_control_change (Some a)) = named (control_change_args.port a)"
| "portsOf (Midi_program_change (Some a)) = named (program_change_args.port a)"
| "portsOf (Midi_pitch_bend (Some a)) = named (pitch_bend_args.port a)"
| "portsOf (Midi_play_sequence (Some a)) = named (play_sequence_args.port a)"
| "portsOf (Midi_play_chord (Some a)) = named (play_chord_args.port a)"
| "portsOf (Midi_play_song (Some a)) =
     (case (play_song_args.port a, play_song_args.tracks a) of
        (Some p, Some ts) \<Rightarrow> map (\<lambda>t. orElse (track.port t) p) ts
      | other \<Rightarrow> [])"
| "portsOf req = []"

text \<open>
  What one track did in a run of a song: the actions recorded for track \<open>i\<close>, in order,
  without the log writes.
\<close>

fun isLog :: "action \<Rightarrow> bool" where
  "isLog (ALog p m) = True"
| "isLog a = False"

definition doneBy :: "nat \<Rightarrow> (nat \<times> action) list \<Rightarrow> action list" where
  "doneBy i perf = map snd (filter (\<lambda>x. fst x = i) perf)"

definition trackTimeline :: "nat \<Rightarrow> (nat \<times> action) list \<Rightarrow> action list" where
  "trackTimeline i perf = filter (\<lambda>a. \<not> isLog a) (doneBy i perf)"

text \<open>
  The timeline the specification gives a track whose items are complete. An event: its
  control change if it has one, a note-on per note, one wait of the event's duration, a
  note-off per note. A track: its program change if it names an instrument, then the whole
  event sequence, repeated as many times as the loop count says (once when absent).
  \<open>numbers\<close> is a message all of whose elements are numbers.
\<close>

definition numbers :: "int list \<Rightarrow> int option list" where
  "numbers m = map Some m"

definition expectedEvent :: "string \<Rightarrow> int \<Rightarrow> rat \<Rightarrow> note_event \<Rightarrow> action list" where
  "expectedEvent trackPort c bd ev =
     (let V = orElse (note_event.velocity ev) 64;
          ns = (case the (note_event.note ev) of Single n \<Rightarrow> [n] | Chord ms \<Rightarrow> ms)
      in (case note_event.cc ev of
            None \<Rightarrow> []
          | Some x \<Rightarrow>
              [ASend trackPort (numbers [0xB0 + (c - 1), the (cc_spec.controller x),
                                         the (cc_spec.value x)])])
         @ map (\<lambda>n. ASend trackPort (numbers [0x90 + (c - 1), n, V])) ns
         @ [AWait (getDuration bd (the (note_event.duration ev)))]
         @ map (\<lambda>n. ASend trackPort (numbers [0x80 + (c - 1), n, V])) ns)"

definition expectedTrack :: "string \<Rightarrow> rat \<Rightarrow> track \<Rightarrow> action list" where
  "expectedTrack argsPort bd t =
     (let trackPort = orElse (track.port t) argsPort;
          c = orElse (track.channel t) 1
      in (case track.instrument t of
            None \<Rightarrow> []
          | Some ins \<Rightarrow> [ASend trackPort (numbers [0xC0 + (c - 1), ins])])
         @ concat (replicate (nat (orElse (track.loop t) 1))
                     (concat (map (expectedEvent trackPort c bd) (the (track.notes t))))))"

text \<open>A program change is the only message of two bytes that a track sends.\<close>

fun isProgramChange :: "action \<Rightarrow> bool" where
  "isProgramChange (ASend p [status, prog]) = True"
| "isProgramChange a = False"

text \<open>
  The messages that reached the ports, and the messages the tracks are recorded to have
  sent, both in order.
\<close>

fun deviceSends :: "effect list \<Rightarrow> (string \<times> int option list) list" where
  "deviceSends [] = []"
| "deviceSends (Sent p h m # es) = (p, numbers m) # deviceSends es"
| "deviceSends (SentRaw p h raw # es) = (p, raw) # deviceSends es"
| "deviceSends (ef # es) = deviceSends es"

fun performedSends :: "(nat \<times> action) list \<Rightarrow> (string \<times> int option list) list" where
  "performedSends [] = []"
| "performedSends ((i, ASend p raw) # xs) = (p, raw) # performedSends xs"
| "performedSends (x # xs) = performedSends xs"

text \<open>
  A run of a song stays on its tracks' programs: what track \<open>i\<close> has performed so far,
  followed by what it still has to do, is the program it started with.
\<close>

definition onTrack :: "action list list \<Rightarrow> song_run \<Rightarrow> bool" where
  "onTrack progs r \<longleftrightarrow>
     length (threads r) = length progs
     \<and> (\<forall>i < length progs.
           case threads r ! i of
             Failed err \<Rightarrow> True
           | Running rest \<Rightarrow> doneBy i (performed r) @ rest = progs ! i)"

text \<open>
  An action that cannot throw in a state: a send of numbers to a port that is cached or
  can be opened, a log write of numbers, a wait. A run is \<open>unfailing\<close> when no track
  has failed and every action still to be performed is of this kind; \<open>remaining\<close> are
  the actions a track still has to perform.
\<close>

fun safeAction :: "env \<Rightarrow> state \<Rightarrow> action \<Rightarrow> bool" where
  "safeAction e st (ASend q raw) = (allDefined raw \<noteq> None \<and> handleFor e st q \<noteq> None)"
| "safeAction e st (ALog q raw) = (allDefined raw \<noteq> None)"
| "safeAction e st (AWait d) = True"
| "safeAction e st (AThrow err) = False"

fun remaining :: "thread \<Rightarrow> action list" where
  "remaining (Running acts) = acts"
| "remaining (Failed err) = []"

definition unfailing :: "env \<Rightarrow> song_run \<Rightarrow> bool" where
  "unfailing e r \<longleftrightarrow>
     rejected r = None
     \<and> (\<forall>i < length (threads r).
           \<exists>acts. threads r ! i = Running acts \<and> list_all (safeAction e (world r)) acts)"

text \<open>
  The event loop resumes every track until it returns: a schedule \<open>resumesEnough\<close> when
  it names each track at least as often as the track has actions to perform.
  \<open>oneAfterAnother\<close> is such a schedule.
\<close>

definition resumesEnough :: "action list list \<Rightarrow> nat list \<Rightarrow> bool" where
  "resumesEnough progs sched \<longleftrightarrow> (\<forall>i < length progs. length (progs ! i) \<le> count_list sched i)"

definition oneAfterAnother :: "action list list \<Rightarrow> nat list" where
  "oneAfterAnother progs = concat (map (\<lambda>i. replicate (length (progs ! i)) i) [0..<length progs])"

text \<open>
  A schedule \<open>runsToEnd\<close> a request when the call has settled after it: for a song, when
  it resumes every track of the song enough; the other tools do not use the schedule.
\<close>

fun runsToEnd :: "request \<Rightarrow> nat list \<Rightarrow> bool" where
  "runsToEnd (Midi_play_song (Some a)) sched =
     (case (play_song_args.port a, play_song_args.tracks a) of
        (Some p, Some ts) \<Rightarrow>
          resumesEnough
            (map (trackActions p (beatDurationOf (orElse (play_song_args.bpm a) 120))) ts) sched
      | other \<Rightarrow> True)"
| "runsToEnd req sched = True"

section \<open>Properties of the activity log\<close>

lemma unshift_pop_take:
  "length xs \<le> n \<Longrightarrow>
   (if length (x # xs) > n then butlast (x # xs) else x # xs) = take n (x # xs)"
proof (cases "length xs = n")
  case True
  then show ?thesis using butlast_conv_take [of "x # xs"] by simp
next
  case False
  assume "length xs \<le> n"
  with False show ?thesis by simp
qed

lemma take_append_take: "take n (ys @ take n zs) = take n (ys @ zs)"
  by (simp add: min_def)

lemma midiLogs_logMidi:
  "length (midiLogs st) \<le> MAX_LOGS \<Longrightarrow>
   midiLogs (logMidi e dir p m st) =
     take MAX_LOGS (logLine (toISOString e (dateReads st)) dir p m # midiLogs st)"
  using unshift_pop_take [of "midiLogs st" MAX_LOGS] by (simp add: logMidi_def Let_def)

lemma dateReads_logMidi: "dateReads (logMidi e dir p m st) = Suc (dateReads st)"
  by (simp add: logMidi_def Let_def)

lemma midiLogs_logMany:
  "length (midiLogs st) \<le> MAX_LOGS \<Longrightarrow>
   midiLogs (logMany e cs st) =
     take MAX_LOGS (rev (logLines e (dateReads st) cs) @ midiLogs st)"
proof (induction cs arbitrary: st)
  case Nil
  then show ?case by simp
next
  case (Cons c cs)
  obtain dir p m where c: "c = (dir, p, m)"
    by (cases c) auto
  let ?l = "logLine (toISOString e (dateReads st)) dir p m"
  let ?st = "logMidi e dir p m st"
  have logs: "midiLogs ?st = take MAX_LOGS (?l # midiLogs st)"
    using Cons.prems by (rule midiLogs_logMidi)
  then have len: "length (midiLogs ?st) \<le> MAX_LOGS"
    by simp
  have "midiLogs (logMany e (c # cs) st) = midiLogs (logMany e cs ?st)"
    by (simp add: c)
  also have "\<dots> = take MAX_LOGS (rev (logLines e (Suc (dateReads st)) cs) @ midiLogs ?st)"
    using Cons.IH [OF len] by (simp add: dateReads_logMidi)
  also have "\<dots> = take MAX_LOGS (rev (logLines e (Suc (dateReads st)) cs) @ ?l # midiLogs st)"
    unfolding logs by (rule take_append_take)
  finally show ?case
    by (simp add: c)
qed

lemma length_logLines: "length (logLines e n cs) = length cs"
  by (induction cs arbitrary: n) auto


lemma dateReads_logMany: "dateReads (logMany e cs st) = dateReads st + length cs"
  by (induction cs arbitrary: st) (auto simp: dateReads_logMidi)

text \<open>
  C8. Starting from the empty log, after any run of appends one more append leaves at most
  100 lines with the new line at the head; a log that already holds 100 lines loses exactly
  its last (oldest) line; and the 101st append leaves the 2nd to 101st lines, newest first:
  the first line written is gone and the 101st is at the head.
\<close>

theorem logMidi_ring:
  assumes "midiLogs st0 = []"
  shows "(let st = logMany e cs st0;
              l = logLine (toISOString e (dateReads st)) dir p m;
              st' = logMidi e dir p m st
          in length (midiLogs st') \<le> 100
           \<and> hd (midiLogs st') = l
           \<and> midiLogs st' = take 100 (l # midiLogs st)
           \<and> (length (midiLogs st) = 100 \<longrightarrow> midiLogs st' = l # butlast (midiLogs st))
           \<and> (length cs = 100 \<longrightarrow>
                midiLogs st' = l # rev (tl (logLines e (dateReads st0) cs))))"
proof -
  define st where "st = logMany e cs st0"
  define l where "l = logLine (toISOString e (dateReads st)) dir p m"
  define st' where "st' = logMidi e dir p m st"
  define ls where "ls = logLines e (dateReads st0) cs"
  have st: "midiLogs st = take 100 (rev ls)"
    using midiLogs_logMany [of st0 e cs] assms by (simp add: st_def ls_def MAX_LOGS_def)
  then have len: "length (midiLogs st) \<le> MAX_LOGS"
    by (simp add: MAX_LOGS_def)
  have step: "midiLogs st' = take 100 (l # midiLogs st)"
    using midiLogs_logMidi [OF len, of e dir p m] by (simp add: st'_def l_def MAX_LOGS_def)
  have full: "midiLogs st' = l # butlast (midiLogs st)" if "length (midiLogs st) = 100"
    using that step by (simp add: butlast_conv_take)
  have "midiLogs st' = l # rev (tl ls)" if "length cs = 100"
  proof -
    have n: "length ls = 100"
      using that by (simp add: ls_def length_logLines)
    then have "midiLogs st = rev ls"
      using st by simp
    moreover have "butlast (rev ls) = rev (tl ls)"
      by simp
    ultimately show ?thesis
      using full n by simp
  qed
  moreover have "length (midiLogs st') \<le> 100" "hd (midiLogs st') = l"
    using step by simp_all
  ultimately show ?thesis
    using step full
    unfolding Let_def st_def [symmetric] l_def [symmetric] st'_def [symmetric]
      ls_def [symmetric]
    by blast
qed

theorem logMidi_ring_witness:
  "midiLogs initial = [] \<and> length hundredNoteOns = 100
   \<and> length (midiLogs (logMany testEnv hundredNoteOns initial)) = 100
   \<and> (let st = logMany testEnv hundredNoteOns initial;
           st' = logMidi testEnv OUT ''loopMIDI'' [128, 60, 100] st
       in length (midiLogs st') \<le> 100
        \<and> hd (midiLogs st') = ''[T100] OUT loopMIDI: 0x80 0x3C 0x64''
        \<and> midiLogs st' = ''[T100] OUT loopMIDI: 0x80 0x3C 0x64'' # butlast (midiLogs st)
        \<and> midiLogs st' = ''[T100] OUT loopMIDI: 0x80 0x3C 0x64''
             # rev (tl (logLines testEnv 0 hundredNoteOns)))"
proof -
  have h0: "midiLogs initial = []" "dateReads initial = 0"
    by (simp_all add: initial_def)
  have h1: "length hundredNoteOns = 100"
    by (simp add: hundredNoteOns_def)
  have h2: "length (midiLogs (logMany testEnv hundredNoteOns initial)) = 100"
    using midiLogs_logMany [of initial testEnv hundredNoteOns] h0 h1
    by (simp add: MAX_LOGS_def length_logLines)
  have h3: "dateReads (logMany testEnv hundredNoteOns initial) = 100"
    by (simp add: dateReads_logMany h0 h1)
  have h4: "logLine (toISOString testEnv 100) OUT ''loopMIDI'' [128, 60, 100]
              = ''[T100] OUT loopMIDI: 0x80 0x3C 0x64''"
    by code_simp
  note ring = logMidi_ring [OF h0(1), of testEnv hundredNoteOns OUT "''loopMIDI''"
      "[128, 60, 100]", unfolded Let_def h0(2) h3 h4]
  show ?thesis
    unfolding Let_def using ring h0(1) h1 h2 by blast
qed

section \<open>Sending and logging one message\<close>

lemma sendMessage_ok:
  "handleFor e st p = Some h \<Longrightarrow>
   sendMessage (openMidiOut e) p m st =
     (Inr (), st \<lparr> activeOutputs := (activeOutputs st)(p \<mapsto> h),
                   effects := effects st @ firstOpen st p h @ [Sent p h m] \<rparr>)"
  by (auto simp: sendMessage_def handleFor_def firstOpen_def fun_upd_idem split: option.splits)

lemma sendMessage_fail:
  "handleFor e st p = None \<Longrightarrow>
   sendMessage (openMidiOut e) p m st =
     (Inl (Error (''Failed to open MIDI output port: '' @ p)), st)"
  by (auto simp: sendMessage_def handleFor_def split: option.splits)

lemma logMidi_fields [simp]:
  "effects (logMidi e dir p m st) = effects st"
  "activeOutputs (logMidi e dir p m st) = activeOutputs st"
  "timers (logMidi e dir p m st) = timers st"
  by (simp_all add: logMidi_def Let_def)

lemma sendAndLog_ok:
  assumes "handleFor e st p = Some h"
  shows "\<exists>st'. sendAndLog e p m st = (Inr (), st')
           \<and> effects st' = effects st @ firstOpen st p h @ [Sent p h m]
           \<and> activeOutputs st' = (activeOutputs st)(p \<mapsto> h)
           \<and> timers st' = timers st
           \<and> st' = logMidi e OUT p m (st \<lparr> activeOutputs := (activeOutputs st)(p \<mapsto> h),
                   effects := effects st @ firstOpen st p h @ [Sent p h m] \<rparr>)"
  using sendMessage_ok [OF assms, of m] by (simp add: sendAndLog_def)

lemma sendAndLog_fail:
  "handleFor e st p = None \<Longrightarrow>
   sendAndLog e p m st = (Inl (Error (''Failed to open MIDI output port: '' @ p)), st)"
  by (simp add: sendAndLog_def sendMessage_fail)

lemma hd_midiLogs_logMidi:
  "hd (midiLogs (logMidi e dir p m st)) = logLine (toISOString e (dateReads st)) dir p m"
  by (cases "midiLogs st") (simp_all add: logMidi_def Let_def MAX_LOGS_def)

lemma sendAndLog_log:
  assumes "handleFor e st p = Some h" and "sendAndLog e p m st = (r, st')"
  shows "hd (midiLogs st') = logLine (toISOString e (dateReads st)) OUT p m"
    and "dateReads st' = Suc (dateReads st)"
  using sendAndLog_ok [OF assms(1), of m] assms(2)
  by (auto simp: hd_midiLogs_logMidi dateReads_logMidi)

lemma handleFor_cached: "activeOutputs st p = Some h \<Longrightarrow> handleFor e st p = Some h"
  by (simp add: handleFor_def)

lemma firstOpen_cached: "activeOutputs st p = Some h \<Longrightarrow> firstOpen st p k = []"
  by (simp add: firstOpen_def)

lemma sleep_fields [simp]:
  "effects (sleep d st) = effects st @ [Wait d]"
  "activeOutputs (sleep d st) = activeOutputs st"
  "timers (sleep d st) = timers st"
  "midiLogs (sleep d st) = midiLogs st"
  "dateReads (sleep d st) = dateReads st"
  by (simp_all add: sleep_def)

lemma allDefined_map_Some [simp]: "allDefined (map Some m) = Some m"
  by (induction m) auto

lemma allDefined_numbers [simp]: "allDefined (numbers m) = Some m"
  by (simp add: numbers_def)

lemma allDefined_Some: "allDefined raw = Some m \<Longrightarrow> raw = numbers m"
proof (induction raw arbitrary: m)
  case Nil
  then show ?case by (simp add: numbers_def)
next
  case (Cons x raw)
  then show ?case
    by (cases x) (auto simp: numbers_def split: option.splits)
qed

lemma sendMessageRaw_numbers:
  "sendMessageRaw jzz p (map Some m) st = sendMessage jzz p m st"
  by (simp add: sendMessageRaw_def)

lemma logMidiRaw_numbers:
  "logMidiRaw e dir p (map Some m) st = (Inr (), logMidi e dir p m st)"
  by (simp add: logMidiRaw_def)

lemma sendAndLogRaw_numbers:
  "sendAndLogRaw e p (map Some m) st = sendAndLog e p m st"
  by (simp add: sendAndLogRaw_def sendAndLog_def sendMessageRaw_numbers logMidiRaw_numbers
      split: prod.splits sum.splits)

lemma sendAndLogRaw_three:
  "sendAndLogRaw e p [Some a, Some b, Some c] st = sendAndLog e p [a, b, c] st"
  using sendAndLogRaw_numbers [of e p "[a, b, c]" st] by simp

section \<open>Facts about the example machine\<close>

lemma handleFor_testEnv_initial: "handleFor testEnv initial ''loopMIDI'' = Some 7"
  by (simp add: handleFor_def testEnv_def initial_def)

lemma firstOpen_initial: "firstOpen initial q h = [Opened q h]" "effects initial = []"
  by (simp_all add: firstOpen_def initial_def)

lemma exampleCalls_run:
  "effects (sendCalls exampleCalls initial)
     = [Opened ''loopMIDI'' 7, Sent ''loopMIDI'' 7 [144, 60, 100],
        Sent ''loopMIDI'' 7 [128, 60, 100]]"
  "activeOutputs (sendCalls exampleCalls initial) ''loopMIDI'' = Some 7"
  "activeOutputs (sendCalls (take 1 exampleCalls) initial) ''loopMIDI'' = Some 7"
  by (simp_all add: exampleCalls_def sendMessage_def testEnv_def initial_def)

section \<open>The duration resolver\<close>

text \<open>
  C4. \<open>getDuration\<close> maps a numeric duration to that many beats, the five note names to
  4, 2, 1, 1/2 and 1/4 beats, and any other text to the quarter-note duration; with the beat
  of \<open>(60 / bpm) * 1000\<close> ms this gives 500, 250 and 1000 ms at 120 BPM for a quarter, an
  eighth and two beats, and 2000 ms at 60 BPM for a half note. There is no error result:
  \<open>getDuration\<close> returns a number for every input.
\<close>

theorem getDuration_table:
  "getDuration bd (Number d) = d * bd
   \<and> getDuration bd (Text ''whole'') = 4 * bd
   \<and> getDuration bd (Text ''half'') = 2 * bd
   \<and> getDuration bd (Text ''quarter'') = 1 * bd
   \<and> getDuration bd (Text ''eighth'') = (1 / 2) * bd
   \<and> getDuration bd (Text ''sixteenth'') = (1 / 4) * bd
   \<and> (s \<notin> {''whole'', ''half'', ''quarter'', ''eighth'', ''sixteenth''} \<longrightarrow>
        getDuration bd (Text s) = getDuration bd (Text ''quarter''))
   \<and> beatDurationOf b = (60 / b) * 1000
   \<and> getDuration (beatDurationOf 120) (Text ''quarter'') = 500
   \<and> getDuration (beatDurationOf 120) (Text ''eighth'') = 250
   \<and> getDuration (beatDurationOf 120) (Number 2) = 1000
   \<and> getDuration (beatDurationOf 60) (Text ''half'') = 2000"
  by (simp add: getDuration_def beatDurationOf_def)

theorem getDuration_table_witness:
  "''dotted'' \<notin> {''whole'', ''half'', ''quarter'', ''eighth'', ''sixteenth''}
   \<and> getDuration (beatDurationOf 120) (Text ''dotted'') = 500"
proof -
  have notin: "''dotted'' \<notin> {''whole'', ''half'', ''quarter'', ''eighth'', ''sixteenth''}"
    by simp
  have "getDuration (beatDurationOf 120) (Text ''dotted'')
          = getDuration (beatDurationOf 120) (Text ''quarter'')"
    using getDuration_table [of "beatDurationOf 120" 0 "''dotted''" 120] notin by blast
  also have "\<dots> = 500"
    by (simp add: getDuration_def beatDurationOf_def)
  finally show ?thesis
    using notin by blast
qed

section \<open>Pitch bend\<close>

lemma toInt32_id: "- (2 ^ 31) \<le> x \<Longrightarrow> x < 2 ^ 31 \<Longrightarrow> toInt32 x = x"
  unfolding toInt32_def by (rule signed_take_bit_int_eq_self)

lemma bend_lsb:
  assumes "- 8192 \<le> v" "v \<le> 8191"
  shows "bitAnd (v + 8192) 0x7F = (v + 8192) AND 0x7F"
  using assms by (simp add: bitAnd_def toInt32_id)

lemma bend_msb:
  assumes "- 8192 \<le> v" "v \<le> 8191"
  shows "bitAnd (shiftRight (v + 8192) 7) 0x7F = drop_bit 7 (v + 8192) AND 0x7F"
proof -
  have a: "toInt32 (v + 8192) = v + 8192"
    using assms by (simp add: toInt32_id)
  have nn: "0 \<le> drop_bit 7 (v + 8192)"
    using assms by simp
  have le: "drop_bit 7 (v + 8192) \<le> v + 8192"
    using assms by (simp add: drop_bit_eq_div)
  have "- (2 ^ 31) \<le> drop_bit 7 (v + 8192)"
    by (rule order_trans [OF _ nn]) simp
  moreover have "drop_bit 7 (v + 8192) < 2 ^ 31"
    by (rule le_less_trans [OF le]) (use assms in simp)
  ultimately have b: "toInt32 (drop_bit 7 (v + 8192)) = drop_bit 7 (v + 8192)"
    by (rule toInt32_id)
  show ?thesis
    by (simp add: bitAnd_def shiftRight_def a b toInt32_id)
qed

text \<open>
  C5. For a bend value between -8192 and 8191, \<open>midi_pitch_bend\<close> sends the one message
  \<open>[0xE0 + (channel - 1), (value + 8192) & 0x7F, ((value + 8192) >> 7) & 0x7F]\<close>
  (channel 1 when none is given); the data bytes are 00 00 for -8192, 00 40 for 0 and
  7F 7F for 8191.
\<close>

theorem midi_pitch_bend_message:
  assumes "- 8192 \<le> v" "v \<le> 8191" and "p \<noteq> []" and "handleFor e st p = Some h"
  shows "(let c = orElse ch 1;
              msg = [0xE0 + (c - 1), (v + 8192) AND 0x7F, drop_bit 7 (v + 8192) AND 0x7F]
          in (\<exists>st'. midi_pitch_bend e \<lparr> pitch_bend_args.port = Some p,
                  pitch_bend_args.value = Some v, pitch_bend_args.channel = ch \<rparr> st
                 = (Inr (''Pitch Bend: '' @ showInt v @ '', channel '' @ showInt c), st')
               \<and> effects st' = effects st @ firstOpen st p h @ [Sent p h msg])
           \<and> (v = - 8192 \<longrightarrow> msg = [0xE0 + (c - 1), 0x00, 0x00])
           \<and> (v = 0 \<longrightarrow> msg = [0xE0 + (c - 1), 0x00, 0x40])
           \<and> (v = 8191 \<longrightarrow> msg = [0xE0 + (c - 1), 0x7F, 0x7F]))"
proof -
  let ?msg = "[0xE0 + (orElse ch 1 - 1), (v + 8192) AND 0x7F, drop_bit 7 (v + 8192) AND 0x7F]"
  obtain st' where "sendAndLog e p ?msg st = (Inr (), st')"
    and "effects st' = effects st @ firstOpen st p h @ [Sent p h ?msg]"
    using sendAndLog_ok [OF assms(4), of ?msg] by blast
  then have "\<exists>st'. midi_pitch_bend e \<lparr> pitch_bend_args.port = Some p,
                  pitch_bend_args.value = Some v, pitch_bend_args.channel = ch \<rparr> st
                 = (Inr (''Pitch Bend: '' @ showInt v @ '', channel '' @ showInt (orElse ch 1)), st')
               \<and> effects st' = effects st @ firstOpen st p h @ [Sent p h ?msg]"
    using assms(1-3) by (simp add: midi_pitch_bend_def Let_def bend_lsb bend_msb)
  moreover have "v = - 8192 \<longrightarrow> ?msg = [0xE0 + (orElse ch 1 - 1), 0x00, 0x00]"
    by simp
  moreover have "v = 0 \<longrightarrow> ?msg = [0xE0 + (orElse ch 1 - 1), 0x00, 0x40]"
    by (simp add: drop_bit_eq_div)
  moreover have "v = 8191 \<longrightarrow> ?msg = [0xE0 + (orElse ch 1 - 1), 0x7F, 0x7F]"
    by (simp add: drop_bit_eq_div)
  ultimately show ?thesis
    unfolding Let_def by blast
qed


theorem midi_pitch_bend_message_witness:
  "handleFor testEnv initial ''loopMIDI'' = Some 7
   \<and> effects (snd (midi_pitch_bend testEnv \<lparr> pitch_bend_args.port = Some ''loopMIDI'',
          pitch_bend_args.value = Some (- 8192), pitch_bend_args.channel = None \<rparr> initial))
       = [Opened ''loopMIDI'' 7, Sent ''loopMIDI'' 7 [0xE0, 0x00, 0x00]]
   \<and> effects (snd (midi_pitch_bend testEnv \<lparr> pitch_bend_args.port = Some ''loopMIDI'',
          pitch_bend_args.value = Some 0, pitch_bend_args.channel = Some 1 \<rparr> initial))
       = [Opened ''loopMIDI'' 7, Sent ''loopMIDI'' 7 [0xE0, 0x00, 0x40]]
   \<and> effects (snd (midi_pitch_bend testEnv \<lparr> pitch_bend_args.port = Some ''loopMIDI'',
          pitch_bend_args.value = Some 8191, pitch_bend_args.channel = Some 16 \<rparr> initial))
       = [Opened ''loopMIDI'' 7, Sent ''loopMIDI'' 7 [0xEF, 0x7F, 0x7F]]"
proof -
  note h = handleFor_testEnv_initial
  have p: "''loopMIDI'' \<noteq> []"
    by simp
  have a: "- 8192 \<le> (- 8192 :: int)" "(- 8192 :: int) \<le> 8191"
    and b: "- 8192 \<le> (0 :: int)" "(0 :: int) \<le> 8191"
    and c: "- 8192 \<le> (8191 :: int)" "(8191 :: int) \<le> 8191"
    by simp_all
  show ?thesis
    using midi_pitch_bend_message [OF a p h, of None]
      midi_pitch_bend_message [OF b p h, of "Some 1"]
      midi_pitch_bend_message [OF c p h, of "Some 16"] h
    by (auto simp: Let_def firstOpen_initial)
qed

section \<open>The output cache\<close>

lemma opensOf_append: "opensOf n (xs @ ys) = opensOf n xs @ opensOf n ys"
  by (induction n xs rule: opensOf.induct) auto

lemma cacheOk_initial: "cacheOk initial"
  by (simp add: cacheOk_def initial_def)

lemma cacheOk_sendMessage:
  assumes "cacheOk st"
  shows "cacheOk (snd (sendMessage jzz q m st))"
proof (cases "activeOutputs st q")
  case (Some h)
  then show ?thesis
    using assms by (auto simp: cacheOk_def sendMessage_def opensOf_append)
next
  case None
  show ?thesis
  proof (cases "jzz q")
    case jn: None
    then show ?thesis
      using assms None by (simp add: sendMessage_def)
  next
    case (Some h)
    have fresh: "Sent q k msg \<notin> set (effects st)" for k msg
    proof
      assume "Sent q k msg \<in> set (effects st)"
      then have "activeOutputs st q = Some k"
        using assms unfolding cacheOk_def by blast
      with None show False
        by simp
    qed
    show ?thesis
      using assms None Some fresh by (auto simp: cacheOk_def sendMessage_def opensOf_append)
  qed
qed

lemma cacheOk_sendCalls: "cacheOk st \<Longrightarrow> cacheOk (sendCalls calls st)"
  by (induction calls arbitrary: st) (auto simp: cacheOk_sendMessage)

lemma sendMessage_keeps:
  "activeOutputs st n = Some h \<Longrightarrow> activeOutputs (snd (sendMessage jzz q m st)) n = Some h"
  by (auto simp: sendMessage_def split: option.splits)

lemma sendCalls_keeps:
  "activeOutputs st n = Some h \<Longrightarrow> activeOutputs (sendCalls calls st) n = Some h"
  by (induction calls arbitrary: st) (auto simp: sendMessage_keeps)

text \<open>
  C9. Over any run of \<open>sendMessage\<close> calls from the start of the process, whatever the
  transport answers each time, every port name is opened at most once; a cached name was
  opened once, with the port now cached, and every send went to the cached port of its
  name. The first successful call for a name opens the port and stores it; a call for a
  cached name sends on the cached port without opening; a cached entry is never removed
  or replaced.
\<close>

theorem sendMessage_opens_once:
  "(let st' = sendCalls calls initial
    in (\<forall>n. length (opensOf n (effects st')) \<le> 1)
     \<and> (\<forall>n h. activeOutputs st' n = Some h \<longrightarrow> opensOf n (effects st') = [h])
     \<and> (\<forall>n h m. Sent n h m \<in> set (effects st') \<longrightarrow> activeOutputs st' n = Some h))
   \<and> (activeOutputs st q = None \<and> jzz q = Some h \<longrightarrow>
        sendMessage jzz q m st =
          (Inr (), st \<lparr> activeOutputs := (activeOutputs st)(q \<mapsto> h),
                        effects := effects st @ [Opened q h, Sent q h m] \<rparr>))
   \<and> (activeOutputs st q = Some h \<longrightarrow>
        sendMessage jzz q m st = (Inr (), st \<lparr> effects := effects st @ [Sent q h m] \<rparr>))
   \<and> (activeOutputs st q = Some h \<longrightarrow> activeOutputs (sendCalls calls st) q = Some h)"
proof -
  have ok: "cacheOk (sendCalls calls initial)"
    by (rule cacheOk_sendCalls [OF cacheOk_initial])
  have "length (opensOf n (effects (sendCalls calls initial))) \<le> 1" for n
    using ok by (auto simp: cacheOk_def split: option.splits)
  moreover have "opensOf n (effects (sendCalls calls initial)) = [k]"
    if "activeOutputs (sendCalls calls initial) n = Some k" for n k
    using ok that by (auto simp: cacheOk_def)
  moreover have "activeOutputs (sendCalls calls initial) n = Some k"
    if "Sent n k msg \<in> set (effects (sendCalls calls initial))" for n k msg
    using ok that by (auto simp: cacheOk_def)
  ultimately show ?thesis
    unfolding Let_def
    by (auto simp: sendMessage_def sendCalls_keeps)
qed


theorem sendMessage_opens_once_witness:
  "activeOutputs initial ''loopMIDI'' = None \<and> openMidiOut testEnv ''loopMIDI'' = Some 7
   \<and> activeOutputs (sendCalls (take 1 exampleCalls) initial) ''loopMIDI'' = Some 7
   \<and> Sent ''loopMIDI'' 7 [128, 60, 100] \<in> set (effects (sendCalls exampleCalls initial))
   \<and> opensOf ''loopMIDI'' (effects (sendCalls exampleCalls initial)) = [7]
   \<and> length (opensOf ''nowhere'' (effects (sendCalls exampleCalls initial))) \<le> 1
   \<and> activeOutputs (sendCalls exampleCalls initial) ''loopMIDI'' = Some 7
   \<and> activeOutputs (sendCalls exampleCalls (sendCalls (take 1 exampleCalls) initial))
         ''loopMIDI'' = Some 7
   \<and> effects (snd (sendMessage (openMidiOut testEnv) ''loopMIDI'' [144, 60, 100] initial))
       = [Opened ''loopMIDI'' 7, Sent ''loopMIDI'' 7 [144, 60, 100]]
   \<and> effects (snd (sendMessage (\<lambda>n. None) ''loopMIDI'' [128, 60, 100]
          (sendCalls (take 1 exampleCalls) initial)))
       = effects (sendCalls (take 1 exampleCalls) initial) @ [Sent ''loopMIDI'' 7 [128, 60, 100]]"
proof -
  have a: "activeOutputs initial ''loopMIDI'' = None" "effects initial = []"
    by (simp_all add: initial_def)
  have b: "openMidiOut testEnv ''loopMIDI'' = Some 7"
    by (simp add: testEnv_def)
  have c: "Sent ''loopMIDI'' 7 [128, 60, 100] \<in> set (effects (sendCalls exampleCalls initial))"
    by (simp add: exampleCalls_run)
  show ?thesis
    using sendMessage_opens_once [of exampleCalls initial "''loopMIDI''" "openMidiOut testEnv" 7
        "[144, 60, 100]"]
      sendMessage_opens_once [of exampleCalls "sendCalls (take 1 exampleCalls) initial"
        "''loopMIDI''" "\<lambda>n. None" 7 "[128, 60, 100]"]
      a b c exampleCalls_run(2,3)
    unfolding Let_def by simp
qed

section \<open>Raw messages\<close>

text \<open>
  C10. Given a non-empty port name that can be opened, \<open>midi_send\<close> passes the byte
  list it received to the port as it is and writes all of it, in hex, to the head of the
  log, whatever its length and whatever its elements: the handler checks neither. The
  empty list and lists of more than three bytes are sent like any other.
\<close>

theorem midi_send_verbatim:
  assumes "p \<noteq> []" and "handleFor e st p = Some h"
  shows "\<exists>st'. midi_send e \<lparr> send_args.port = Some p, send_args.bytes = Some bs \<rparr> st
                 = (Inr (''Sent MIDI message to '' @ p), st')
             \<and> effects st' = effects st @ firstOpen st p h @ [Sent p h bs]
             \<and> hd (midiLogs st')
                 = ''['' @ toISOString e (dateReads st) @ ''] OUT '' @ p @ '': ''
                     @ join '' '' (map hexByte bs)"
proof -
  obtain st' where s: "sendAndLog e p bs st = (Inr (), st')"
    and eff: "effects st' = effects st @ firstOpen st p h @ [Sent p h bs]"
    using sendAndLog_ok [OF assms(2), of bs] by blast
  have "hd (midiLogs st') = logLine (toISOString e (dateReads st)) OUT p bs"
    using sendAndLog_log(1) [OF assms(2) s] .
  then show ?thesis
    using assms(1) s eff by (simp add: midi_send_def logLine_def)
qed

theorem midi_send_verbatim_witness:
  "''loopMIDI'' \<noteq> [] \<and> handleFor testEnv initial ''loopMIDI'' = Some 7
   \<and> midi_send testEnv \<lparr> send_args.port = Some ''loopMIDI'', send_args.bytes = Some [] \<rparr> initial
       = (Inr ''Sent MIDI message to loopMIDI'',
          initial \<lparr> activeOutputs := [''loopMIDI'' \<mapsto> 7],
                    midiLogs := [''[T0] OUT loopMIDI: ''],
                    effects := [Opened ''loopMIDI'' 7, Sent ''loopMIDI'' 7 []],
                    dateReads := 1 \<rparr>)
   \<and> effects (snd (midi_send testEnv \<lparr> send_args.port = Some ''loopMIDI'',
          send_args.bytes = Some [240, 1, 2, 300, - 1, 247] \<rparr> initial))
       = [Opened ''loopMIDI'' 7, Sent ''loopMIDI'' 7 [240, 1, 2, 300, - 1, 247]]
   \<and> hd (midiLogs (snd (midi_send testEnv \<lparr> send_args.port = Some ''loopMIDI'',
          send_args.bytes = Some [240, 1, 2, 300, - 1, 247] \<rparr> initial)))
       = ''[T0] OUT loopMIDI: 0xF0 0x01 0x02 0x12C 0x-1 0xF7''"
proof -
  have p: "''loopMIDI'' \<noteq> []"
    by simp
  have ev: "midi_send testEnv \<lparr> send_args.port = Some ''loopMIDI'', send_args.bytes = Some [] \<rparr> initial
       = (Inr ''Sent MIDI message to loopMIDI'',
          initial \<lparr> activeOutputs := [''loopMIDI'' \<mapsto> 7],
                    midiLogs := [''[T0] OUT loopMIDI: ''],
                    effects := [Opened ''loopMIDI'' 7, Sent ''loopMIDI'' 7 []],
                    dateReads := 1 \<rparr>)"
    by (simp add: midi_send_def Let_def sendAndLog_def sendMessage_def logMidi_def logLine_def
        testEnv_def initial_def MAX_LOGS_def showInt_def numberToString_def natToString.simps
        digitChar_def)
  have line: "''['' @ toISOString testEnv (dateReads initial) @ ''] OUT '' @ ''loopMIDI'' @ '': ''
                @ join '' '' (map hexByte [240, 1, 2, 300, - 1, 247])
              = ''[T0] OUT loopMIDI: 0xF0 0x01 0x02 0x12C 0x-1 0xF7''"
    by code_simp
  show ?thesis
    using midi_send_verbatim [OF p handleFor_testEnv_initial, of "[240, 1, 2, 300, - 1, 247]"]
      midi_send_verbatim [OF p handleFor_testEnv_initial, of "[]"]
      handleFor_testEnv_initial ev
    unfolding line by (auto simp: firstOpen_initial)
qed

section \<open>Chords\<close>

lemma sendNotes_ok:
  assumes "handleFor e st p = Some h"
  shows "\<exists>st'. sendNotes e p s v ns st = (Inr (), st')
           \<and> effects st' = effects st @ (if ns = [] then [] else firstOpen st p h)
                 @ map (\<lambda>n. Sent p h [s, n, v]) ns
           \<and> activeOutputs st' = (if ns = [] then activeOutputs st else (activeOutputs st)(p \<mapsto> h))"
  using assms
proof (induction ns arbitrary: st)
  case Nil
  then show ?case by simp
next
  case (Cons n ns)
  obtain st1 where s1: "sendAndLog e p [s, n, v] st = (Inr (), st1)"
    and e1: "effects st1 = effects st @ firstOpen st p h @ [Sent p h [s, n, v]]"
    and a1: "activeOutputs st1 = (activeOutputs st)(p \<mapsto> h)"
    using sendAndLog_ok [OF Cons.prems, of "[s, n, v]"] by blast
  have c1: "activeOutputs st1 p = Some h"
    by (simp add: a1)
  obtain st' where s2: "sendNotes e p s v ns st1 = (Inr (), st')"
    and e2: "effects st' = effects st1 @ (if ns = [] then [] else firstOpen st1 p h)
                 @ map (\<lambda>n. Sent p h [s, n, v]) ns"
    and a2: "activeOutputs st' = (if ns = [] then activeOutputs st1 else (activeOutputs st1)(p \<mapsto> h))"
    using Cons.IH [OF handleFor_cached [OF c1, of e]] by blast
  have "sendNotes e p s v (n # ns) st = (Inr (), st')"
    by (simp add: s1 s2)
  moreover have "effects st' = effects st @ (if n # ns = [] then [] else firstOpen st p h)
      @ map (\<lambda>n. Sent p h [s, n, v]) (n # ns)"
    by (simp add: e2 e1 firstOpen_cached [OF c1])
  moreover have "activeOutputs st'
      = (if n # ns = [] then activeOutputs st else (activeOutputs st)(p \<mapsto> h))"
    by (simp add: a2 a1)
  ultimately show ?case
    by blast
qed

text \<open>
  C2. For a non-empty note list, a non-empty port name that can be opened, and any
  velocity \<open>V\<close> (64 when absent), duration \<open>D\<close> (500 when absent) and channel
  \<open>c\<close> (1 when absent), \<open>midi_play_chord\<close> sends one note-on
  \<open>[0x90 + (c - 1), note, V]\<close> per note in list order with nothing in between, waits
  once for \<open>D\<close> ms, sends one note-off \<open>[0x80 + (c - 1), note, V]\<close> per note in the
  same order, and returns "Played chord with N notes for Dms on channel c".
\<close>

theorem midi_play_chord_plan:
  assumes "ns \<noteq> []" and "p \<noteq> []" and "handleFor e st p = Some h"
  shows "(let c = orElse ch 1; V = orElse vel 64; D = orElse dur 500
          in \<exists>st'. midi_play_chord e \<lparr> play_chord_args.port = Some p,
                        play_chord_args.notes = Some ns, play_chord_args.velocity = vel,
                        play_chord_args.duration = dur, play_chord_args.channel = ch \<rparr> st
                 = (Inr (''Played chord with '' @ showInt (int (length ns)) @ '' notes for ''
                          @ showInt D @ ''ms on channel '' @ showInt c), st')
               \<and> effects st' = effects st @ firstOpen st p h
                     @ map (\<lambda>n. Sent p h [0x90 + (c - 1), n, V]) ns
                     @ [Wait (of_int D)]
                     @ map (\<lambda>n. Sent p h [0x80 + (c - 1), n, V]) ns)"
proof -
  define c where "c = orElse ch 1"
  define V where "V = orElse vel 64"
  define D where "D = orElse dur 500"
  obtain st1 where s1: "sendNotes e p (0x90 + (c - 1)) V ns st = (Inr (), st1)"
    and e1: "effects st1 = effects st @ firstOpen st p h
                 @ map (\<lambda>n. Sent p h [0x90 + (c - 1), n, V]) ns"
    and a1: "activeOutputs st1 = (activeOutputs st)(p \<mapsto> h)"
    using sendNotes_ok [OF assms(3), of "0x90 + (c - 1)" V ns] assms(1) by auto
  let ?st2 = "sleep (of_int D) st1"
  have c2: "activeOutputs ?st2 p = Some h"
    by (simp add: a1)
  obtain st3 where s3: "sendNotes e p (0x80 + (c - 1)) V ns ?st2 = (Inr (), st3)"
    and e3: "effects st3 = effects ?st2 @ map (\<lambda>n. Sent p h [0x80 + (c - 1), n, V]) ns"
    using sendNotes_ok [OF handleFor_cached [OF c2, of e], of "0x80 + (c - 1)" V ns]
      assms(1) firstOpen_cached [OF c2] by auto
  have "midi_play_chord e \<lparr> play_chord_args.port = Some p,
            play_chord_args.notes = Some ns, play_chord_args.velocity = vel,
            play_chord_args.duration = dur, play_chord_args.channel = ch \<rparr> st
          = (Inr (''Played chord with '' @ showInt (int (length ns)) @ '' notes for ''
                   @ showInt D @ ''ms on channel '' @ showInt c), st3)"
    using assms(1,2) s1 s3 by (simp add: midi_play_chord_def Let_def c_def V_def D_def)
  moreover have "effects st3 = effects st @ firstOpen st p h
                     @ map (\<lambda>n. Sent p h [0x90 + (c - 1), n, V]) ns
                     @ [Wait (of_int D)]
                     @ map (\<lambda>n. Sent p h [0x80 + (c - 1), n, V]) ns"
    by (simp add: e3 e1)
  ultimately show ?thesis
    unfolding Let_def c_def V_def D_def by blast
qed


theorem midi_play_chord_plan_witness:
  "[60, 64, 67 :: int] \<noteq> [] \<and> ''loopMIDI'' \<noteq> []
   \<and> handleFor testEnv initial ''loopMIDI'' = Some 7
   \<and> fst (midi_play_chord testEnv \<lparr> play_chord_args.port = Some ''loopMIDI'',
          play_chord_args.notes = Some [60, 64, 67], play_chord_args.velocity = Some 100,
          play_chord_args.duration = Some 300, play_chord_args.channel = Some 1 \<rparr> initial)
       = Inr ''Played chord with 3 notes for 300ms on channel 1''
   \<and> effects (snd (midi_play_chord testEnv \<lparr> play_chord_args.port = Some ''loopMIDI'',
          play_chord_args.notes = Some [60, 64, 67], play_chord_args.velocity = Some 100,
          play_chord_args.duration = Some 300, play_chord_args.channel = Some 1 \<rparr> initial))
       = [Opened ''loopMIDI'' 7,
          Sent ''loopMIDI'' 7 [0x90, 60, 100], Sent ''loopMIDI'' 7 [0x90, 64, 100],
          Sent ''loopMIDI'' 7 [0x90, 67, 100],
          Wait 300,
          Sent ''loopMIDI'' 7 [0x80, 60, 100], Sent ''loopMIDI'' 7 [0x80, 64, 100],
          Sent ''loopMIDI'' 7 [0x80, 67, 100]]"
proof -
  have n: "[60, 64, 67 :: int] \<noteq> []" and p: "''loopMIDI'' \<noteq> []"
    by simp_all
  have t: "''Played chord with '' @ showInt (int (length [60, 64, 67 :: int])) @ '' notes for ''
             @ showInt 300 @ ''ms on channel '' @ showInt 1
           = ''Played chord with 3 notes for 300ms on channel 1''"
    by code_simp
  show ?thesis
    using midi_play_chord_plan [OF n p handleFor_testEnv_initial, of "Some 1" "Some 100" "Some 300"]
      handleFor_testEnv_initial
    unfolding Let_def orElse.simps t by (auto simp: firstOpen_initial)
qed

section \<open>Sequences\<close>

lemma playSequenceLoop_ok:
  assumes "handleFor e st p = Some h" and "list_all (\<lambda>i. sequence_note.note i \<noteq> None) items"
  shows "\<exists>st'. playSequenceLoop e p on off items tot st
               = (Inr (tot + sum_list (map (\<lambda>i. orElse (sequence_note.duration i) 500) items)), st')
           \<and> effects st' = effects st @ (if items = [] then [] else firstOpen st p h)
                 @ concat (map (\<lambda>i.
                     [Sent p h [on, the (sequence_note.note i), orElse (sequence_note.velocity i) 64],
                      Wait (of_int (orElse (sequence_note.duration i) 500)),
                      Sent p h [off, the (sequence_note.note i), orElse (sequence_note.velocity i) 64]])
                   items)
           \<and> activeOutputs st'
               = (if items = [] then activeOutputs st else (activeOutputs st)(p \<mapsto> h))"
  using assms
proof (induction items arbitrary: st tot)
  case Nil
  then show ?case by simp
next
  case (Cons i items)
  let ?v = "orElse (sequence_note.velocity i) 64"
  let ?d = "orElse (sequence_note.duration i) 500"
  let ?n = "the (sequence_note.note i)"
  let ?f = "\<lambda>i. [Sent p h [on, the (sequence_note.note i), orElse (sequence_note.velocity i) 64],
                      Wait (of_int (orElse (sequence_note.duration i) 500)),
                      Sent p h [off, the (sequence_note.note i), orElse (sequence_note.velocity i) 64]]"
  obtain st1 where s1: "sendAndLog e p [on, ?n, ?v] st = (Inr (), st1)"
    and e1: "effects st1 = effects st @ firstOpen st p h @ [Sent p h [on, ?n, ?v]]"
    and a1: "activeOutputs st1 = (activeOutputs st)(p \<mapsto> h)"
    using sendAndLog_ok [OF Cons.prems(1), of "[on, ?n, ?v]"] by blast
  let ?st2 = "sleep (of_int ?d) st1"
  have c2: "activeOutputs ?st2 p = Some h"
    by (simp add: a1)
  obtain st3 where s3: "sendAndLog e p [off, ?n, ?v] ?st2 = (Inr (), st3)"
    and e3: "effects st3 = effects ?st2 @ firstOpen ?st2 p h @ [Sent p h [off, ?n, ?v]]"
    and a3: "activeOutputs st3 = (activeOutputs ?st2)(p \<mapsto> h)"
    using sendAndLog_ok [OF handleFor_cached [OF c2, of e], of "[off, ?n, ?v]"] by blast
  have c3: "activeOutputs st3 p = Some h"
    by (simp add: a3)
  obtain st' where s4: "playSequenceLoop e p on off items (tot + ?d) st3
               = (Inr (tot + ?d + sum_list (map (\<lambda>i. orElse (sequence_note.duration i) 500) items)), st')"
    and e4: "effects st' = effects st3 @ (if items = [] then [] else firstOpen st3 p h)
                 @ concat (map ?f items)"
    and a4: "activeOutputs st'
               = (if items = [] then activeOutputs st3 else (activeOutputs st3)(p \<mapsto> h))"
    using Cons.IH [OF handleFor_cached [OF c3, of e], of "tot + ?d"] Cons.prems(2) by auto
  obtain n where n: "sequence_note.note i = Some n"
    using Cons.prems(2) by auto
  have "playSequenceLoop e p on off (i # items) tot st
          = (Inr (tot + sum_list (map (\<lambda>i. orElse (sequence_note.duration i) 500) (i # items))), st')"
    using s1 s3 s4 by (simp add: Let_def n sendAndLogRaw_three add.assoc)
  moreover have "effects st' = effects st @ (if i # items = [] then [] else firstOpen st p h)
      @ concat (map ?f (i # items))"
    by (simp add: e4 e3 e1 firstOpen_cached [OF c3] firstOpen_cached [OF c2])
  moreover have "activeOutputs st'
      = (if i # items = [] then activeOutputs st else (activeOutputs st)(p \<mapsto> h))"
    by (simp add: a4 a3 a1)
  ultimately show ?case
    by blast
qed

text \<open>
  C3. For a non-empty list of note specifications (each a note with an optional velocity
  and an optional duration) and a non-empty port name that can be opened,
  \<open>midi_play_sequence\<close> handles the notes in list order, and for each one sends its
  note-on, waits its duration (500 ms when absent) and sends its note-off before the next
  note; the text returned is "Played sequence of N notes (Tms total) on channel c" with
  \<open>N\<close> the length of the list and \<open>T\<close> the sum of the durations.
\<close>

theorem midi_play_sequence_plan:
  assumes "specs \<noteq> []" and "p \<noteq> []" and "handleFor e st p = Some h"
  shows "(let c = orElse ch 1;
              items = map (\<lambda>(n, v, d). \<lparr> sequence_note.note = Some n,
                        sequence_note.velocity = v, sequence_note.duration = d \<rparr>) specs;
              T = sum_list (map (\<lambda>(n, v, d). orElse d 500) specs)
          in \<exists>st'. midi_play_sequence e \<lparr> play_sequence_args.port = Some p,
                        play_sequence_args.notes = Some items,
                        play_sequence_args.channel = ch \<rparr> st
                 = (Inr (''Played sequence of '' @ showInt (int (length specs)) @ '' notes (''
                          @ showInt T @ ''ms total) on channel '' @ showInt c), st')
               \<and> effects st' = effects st @ firstOpen st p h
                     @ concat (map (\<lambda>(n, v, d).
                         [Sent p h [0x90 + (c - 1), n, orElse v 64],
                          Wait (of_int (orElse d 500)),
                          Sent p h [0x80 + (c - 1), n, orElse v 64]])
                       specs))"
proof -
  define c where "c = orElse ch 1"
  define items where "items = map (\<lambda>(n, v, d). \<lparr> sequence_note.note = Some n,
                        sequence_note.velocity = v, sequence_note.duration = d \<rparr>) specs"
  define T where "T = sum_list (map (\<lambda>(n, v, d). orElse d 500) specs)"
  have T: "sum_list (map (\<lambda>i. orElse (sequence_note.duration i) 500) items) = T"
    by (simp add: items_def T_def comp_def split_def)
  have all: "list_all (\<lambda>i. sequence_note.note i \<noteq> None) items"
    by (simp add: items_def list_all_iff split_def)
  have items: "items \<noteq> []" "length items = length specs"
    using assms(1) by (simp_all add: items_def)
  obtain st' where s: "playSequenceLoop e p (0x90 + (c - 1)) (0x80 + (c - 1)) items 0 st
               = (Inr (0 + T), st')"
    and e: "effects st' = effects st @ (if items = [] then [] else firstOpen st p h)
                 @ concat (map (\<lambda>i.
                     [Sent p h [0x90 + (c - 1), the (sequence_note.note i),
                                orElse (sequence_note.velocity i) 64],
                      Wait (of_int (orElse (sequence_note.duration i) 500)),
                      Sent p h [0x80 + (c - 1), the (sequence_note.note i),
                                orElse (sequence_note.velocity i) 64]])
                   items)"
    using playSequenceLoop_ok [OF assms(3) all, of "0x90 + (c - 1)" "0x80 + (c - 1)" 0]
    unfolding T by blast
  have "midi_play_sequence e \<lparr> play_sequence_args.port = Some p,
            play_sequence_args.notes = Some items, play_sequence_args.channel = ch \<rparr> st
          = (Inr (''Played sequence of '' @ showInt (int (length specs)) @ '' notes (''
                   @ showInt T @ ''ms total) on channel '' @ showInt c), st')"
    using assms(1,2) items s by (simp add: midi_play_sequence_def Let_def c_def)
  moreover have "effects st' = effects st @ firstOpen st p h
                 @ concat (map (\<lambda>(n, v, d).
                     [Sent p h [0x90 + (c - 1), n, orElse v 64],
                      Wait (of_int (orElse d 500)),
                      Sent p h [0x80 + (c - 1), n, orElse v 64]])
                   specs)"
    using e items(1) by (simp add: items_def comp_def split_def)
  ultimately show ?thesis
    unfolding Let_def c_def [symmetric] items_def [symmetric] T_def [symmetric] by blast
qed

theorem midi_play_sequence_plan_witness:
  "[(60, None, Some 200), (62, None, Some 300)] \<noteq> ([] :: (int \<times> int option \<times> int option) list)
   \<and> ''loopMIDI'' \<noteq> []
   \<and> handleFor testEnv initial ''loopMIDI'' = Some 7
   \<and> fst (midi_play_sequence testEnv \<lparr> play_sequence_args.port = Some ''loopMIDI'',
          play_sequence_args.notes = Some twoNotes, play_sequence_args.channel = None \<rparr> initial)
       = Inr ''Played sequence of 2 notes (500ms total) on channel 1''
   \<and> effects (snd (midi_play_sequence testEnv \<lparr> play_sequence_args.port = Some ''loopMIDI'',
          play_sequence_args.notes = Some twoNotes, play_sequence_args.channel = None \<rparr> initial))
       = [Opened ''loopMIDI'' 7,
          Sent ''loopMIDI'' 7 [0x90, 60, 64], Wait 200, Sent ''loopMIDI'' 7 [0x80, 60, 64],
          Sent ''loopMIDI'' 7 [0x90, 62, 64], Wait 300, Sent ''loopMIDI'' 7 [0x80, 62, 64]]"
proof -
  let ?specs = "[(60, None, Some 200), (62, None, Some 300)] :: (int \<times> int option \<times> int option) list"
  have n: "?specs \<noteq> []" and p: "''loopMIDI'' \<noteq> []"
    by simp_all
  have two: "map (\<lambda>(n, v, d). \<lparr> sequence_note.note = Some n,
                        sequence_note.velocity = v, sequence_note.duration = d \<rparr>) ?specs = twoNotes"
    by (simp add: twoNotes_def)
  have t: "''Played sequence of '' @ showInt (int (length ?specs)) @ '' notes (''
             @ showInt (sum_list (map (\<lambda>(n, v, d). orElse d 500) ?specs))
             @ ''ms total) on channel '' @ showInt 1
           = ''Played sequence of 2 notes (500ms total) on channel 1''"
    by code_simp
  show ?thesis
    using midi_play_sequence_plan [OF n p handleFor_testEnv_initial, of None]
      handleFor_testEnv_initial
    unfolding Let_def orElse.simps t two by (auto simp: firstOpen_initial)
qed

section \<open>Missing required fields\<close>

lemma mentionsI: "msg = before @ name @ after \<Longrightarrow> mentions msg name"
  unfolding mentions_def by blast

lemma missing_messages:
  "mentions ''Missing arguments: port and bytes are required'' ''port''"
  "mentions ''Missing arguments: port and bytes are required'' ''bytes''"
  "mentions ''Missing arguments: port and note are required'' ''port''"
  "mentions ''Missing arguments: port and note are required'' ''note''"
  "mentions ''Missing arguments: port, controller, and value are required'' ''port''"
  "mentions ''Missing arguments: port, controller, and value are required'' ''controller''"
  "mentions ''Missing arguments: port, controller, and value are required'' ''value''"
  "mentions ''Missing arguments: port and program are required'' ''port''"
  "mentions ''Missing arguments: port and program are required'' ''program''"
  "mentions ''Missing arguments: port and value are required'' ''port''"
  "mentions ''Missing arguments: port and value are required'' ''value''"
  "mentions ''Missing arguments: port and notes are required'' ''port''"
  "mentions ''Missing arguments: port and notes are required'' ''notes''"
  "mentions ''Missing arguments: port and tracks are required'' ''port''"
  "mentions ''Missing arguments: port and tracks are required'' ''tracks''"
                      apply (rule mentionsI [where before = "''Missing arguments: ''" and after = "'' and bytes are required''"], simp)
                     apply (rule mentionsI [where before = "''Missing arguments: port and ''" and after = "'' are required''"], simp)
                    apply (rule mentionsI [where before = "''Missing arguments: ''" and after = "'' and note are required''"], simp)
                   apply (rule mentionsI [where before = "''Missing arguments: port and ''" and after = "'' are required''"], simp)
                  apply (rule mentionsI [where before = "''Missing arguments: ''" and after = "'', controller, and value are required''"], simp)
                 apply (rule mentionsI [where before = "''Missing arguments: port, ''" and after = "'', and value are required''"], simp)
                apply (rule mentionsI [where before = "''Missing arguments: port, controller, and ''" and after = "'' are required''"], simp)
               apply (rule mentionsI [where before = "''Missing arguments: ''" and after = "'' and program are required''"], simp)
              apply (rule mentionsI [where before = "''Missing arguments: port and ''" and after = "'' are required''"], simp)
             apply (rule mentionsI [where before = "''Missing arguments: ''" and after = "'' and value are required''"], simp)
            apply (rule mentionsI [where before = "''Missing arguments: port and ''" and after = "'' are required''"], simp)
           apply (rule mentionsI [where before = "''Missing arguments: ''" and after = "'' and notes are required''"], simp)
          apply (rule mentionsI [where before = "''Missing arguments: port and ''" and after = "'' are required''"], simp)
         apply (rule mentionsI [where before = "''Missing arguments: ''" and after = "'' and tracks are required''"], simp)
  apply (rule mentionsI [where before = "''Missing arguments: port and ''" and after = "'' are required''"], simp)
  done

lemma absent_iff [simp]: "absent name field = [] \<longleftrightarrow> field \<noteq> None"
  "set (absent name field) = (if field = None then {name} else {})"
  by (simp_all add: absent_def)

lemma mentions_iff:
  "mentions msg name
     \<longleftrightarrow> list_ex (\<lambda>i. take (length name) (drop i msg) = name) [0..<Suc (length msg)]"
proof
  assume "mentions msg name"
  then obtain before after where m: "msg = before @ name @ after"
    unfolding mentions_def by blast
  then have "take (length name) (drop (length before) msg) = name"
    by simp
  moreover have "length before < Suc (length msg)"
    using m by simp
  ultimately have "\<exists>i \<in> set [0..<Suc (length msg)]. take (length name) (drop i msg) = name"
    by (intro bexI [of _ "length before"]) auto
  then show "list_ex (\<lambda>i. take (length name) (drop i msg) = name) [0..<Suc (length msg)]"
    unfolding list_ex_iff .
next
  assume "list_ex (\<lambda>i. take (length name) (drop i msg) = name) [0..<Suc (length msg)]"
  then obtain i where i: "take (length name) (drop i msg) = name"
    unfolding list_ex_iff by auto
  have "msg = take i msg @ take (length name) (drop i msg) @ drop (length name) (drop i msg)"
    by (simp only: append_take_drop_id)
  then have "msg = take i msg @ name @ drop (length name) (drop i msg)"
    using i by simp
  then show "mentions msg name"
    unfolding mentions_def by blast
qed

lemma songWithoutNotes_run:
  "fst (callTool testEnv [0, 0, 0] songWithoutNotes initial)
     = Some (Inl (TypeError ''track.notes is not iterable''))"
  "effects (snd (callTool testEnv [0, 0, 0] songWithoutNotes initial))
     = [Opened ''loopMIDI'' 7, Sent ''loopMIDI'' 7 [0xC0, 5]]"
  "midiLogs (snd (callTool testEnv [0, 0, 0] songWithoutNotes initial))
     = [''[T0] OUT loopMIDI: 0xC0 0x05'']"
  by code_simp+

text \<open>
  C7 holds for the fields a handler tests, and not beyond them. A song whose track has no
  \<open>notes\<close>, a field its schema requires, has the track's program change sent and
  logged before the loop over \<open>track.notes\<close> throws. A note-on request without an
  arguments object fails before anything is sent, but with the engine's error for reading
  \<open>port\<close> of \<open>undefined\<close>, which does not name \<open>note\<close>.
\<close>

theorem missing_field_counterexample:
  "track.notes trackWithoutNotes = None
   \<and> fst (callTool testEnv [0, 0, 0] songWithoutNotes initial)
       = Some (Inl (TypeError ''track.notes is not iterable''))
   \<and> effects (snd (callTool testEnv [0, 0, 0] songWithoutNotes initial))
       = [Opened ''loopMIDI'' 7, Sent ''loopMIDI'' 7 [0xC0, 5]]
   \<and> midiLogs (snd (callTool testEnv [0, 0, 0] songWithoutNotes initial))
       = [''[T0] OUT loopMIDI: 0xC0 0x05'']
   \<and> effects initial = [] \<and> midiLogs initial = []
   \<and> callTool testEnv [] (Midi_note_on None) initial
       = (Some (Inl (TypeError ''Cannot read properties of undefined (reading 'port')'')),
          initial)
   \<and> \<not> mentions ''Cannot read properties of undefined (reading 'port')'' ''note''"
proof -
  have "\<not> mentions ''Cannot read properties of undefined (reading 'port')'' ''note''"
    unfolding mentions_iff by code_simp
  moreover have "track.notes trackWithoutNotes = None"
    by (simp add: trackWithoutNotes_def)
  moreover have "effects initial = []" "midiLogs initial = []"
    by (simp_all add: initial_def)
  moreover have "callTool testEnv [] (Midi_note_on None) initial
       = (Some (Inl (TypeError ''Cannot read properties of undefined (reading 'port')'')),
          initial)"
    by (simp add: readPortOfUndefined_def)
  ultimately show ?thesis
    using songWithoutNotes_run by blast
qed

text \<open>
  C7, as the code has it. A request that carries an arguments object and omits from it a
  required top-level field (\<open>port\<close> for every tool that sends; \<open>note\<close>, \<open>bytes\<close>,
  \<open>notes\<close>, \<open>tracks\<close>, \<open>controller\<close>, \<open>value\<close> or \<open>program\<close> where the tool
  requires it) fails with a "Missing arguments" error whose text names every omitted
  field, and the state is the one before the call: nothing was sent and the log is
  unchanged.
\<close>

theorem missing_field_rejected:
  assumes "omitted req \<noteq> []"
  shows "\<exists>msg. callTool e sched req st = (Some (Inl (Error msg)), st)
           \<and> take 19 msg = ''Missing arguments: ''
           \<and> (\<forall>name \<in> set (omitted req). mentions msg name)"
proof (cases req)
  case Midi_list_ports
  then show ?thesis using assms by simp
next
  case (Midi_send a)
  then show ?thesis
    using assms
    by (cases a) (auto simp: settled_def midi_send_def missing_messages split: if_splits)
next
  case (Midi_note_on a)
  then show ?thesis
    using assms
    by (cases a) (auto simp: settled_def midi_note_on_def missing_messages split: if_splits)
next
  case (Midi_note_off a)
  then show ?thesis
    using assms
    by (cases a) (auto simp: settled_def midi_note_off_def missing_messages split: if_splits)
next
  case (Midi_play_note a)
  then show ?thesis
    using assms
    by (cases a) (auto simp: settled_def midi_play_note_def missing_messages split: if_splits)
next
  case (Midi_control_change a)
  then show ?thesis
    using assms
    by (cases a)
      (auto simp: settled_def midi_control_change_def missing_messages split: if_splits)
next
  case (Midi_program_change a)
  then show ?thesis
    using assms
    by (cases a)
      (auto simp: settled_def midi_program_change_def missing_messages split: if_splits)
next
  case (Midi_pitch_bend a)
  then show ?thesis
    using assms
    by (cases a) (auto simp: settled_def midi_pitch_bend_def missing_messages split: if_splits)
next
  case (Midi_play_sequence a)
  then show ?thesis
    using assms
    by (cases a)
      (auto simp: settled_def midi_play_sequence_def missing_messages split: if_splits)
next
  case (Midi_play_chord a)
  then show ?thesis
    using assms
    by (cases a) (auto simp: settled_def midi_play_chord_def missing_messages split: if_splits)
next
  case (Midi_play_song a)
  then show ?thesis
    using assms
    by (cases a) (auto simp: midi_play_song_def missing_messages split: if_splits)
next
  case (Unknown_tool n)
  then show ?thesis using assms by simp
qed

theorem missing_field_rejected_witness:
  "omitted (Midi_note_on (Some \<lparr> note_args.port = None, note_args.note = Some 60,
              note_args.velocity = None, note_args.channel = None \<rparr>)) = [''port'']
   \<and> callTool testEnv [] (Midi_note_on (Some \<lparr> note_args.port = None, note_args.note = Some 60,
              note_args.velocity = None, note_args.channel = None \<rparr>)) initial
       = (Some (Inl (Error ''Missing arguments: port and note are required'')), initial)
   \<and> mentions ''Missing arguments: port and note are required'' ''port''
   \<and> omitted (Midi_play_sequence (Some \<lparr> play_sequence_args.port = Some ''loopMIDI'',
              play_sequence_args.notes = None, play_sequence_args.channel = None \<rparr>)) = [''notes'']
   \<and> callTool testEnv [] (Midi_play_sequence (Some \<lparr> play_sequence_args.port = Some ''loopMIDI'',
              play_sequence_args.notes = None, play_sequence_args.channel = None \<rparr>)) initial
       = (Some (Inl (Error ''Missing arguments: port and notes are required'')), initial)
   \<and> mentions ''Missing arguments: port and notes are required'' ''notes''"
proof -
  let ?a = "Midi_note_on (Some \<lparr> note_args.port = None, note_args.note = Some 60,
              note_args.velocity = None, note_args.channel = None \<rparr>)"
  let ?b = "Midi_play_sequence (Some \<lparr> play_sequence_args.port = Some ''loopMIDI'',
              play_sequence_args.notes = None, play_sequence_args.channel = None \<rparr>)"
  have a: "omitted ?a = [''port'']" and b: "omitted ?b = [''notes'']"
    by (simp_all add: absent_def)
  have ea: "callTool testEnv [] ?a initial
       = (Some (Inl (Error ''Missing arguments: port and note are required'')), initial)"
    by (simp add: settled_def midi_note_on_def)
  have eb: "callTool testEnv [] ?b initial
       = (Some (Inl (Error ''Missing arguments: port and notes are required'')), initial)"
    by (simp add: settled_def midi_play_sequence_def)
  have na: "omitted ?a \<noteq> []" and nb: "omitted ?b \<noteq> []"
    by (simp_all add: a b)
  have "mentions ''Missing arguments: port and note are required'' ''port''"
    using missing_field_rejected [OF na, of testEnv "[]" initial] unfolding ea a by auto
  moreover have "mentions ''Missing arguments: port and notes are required'' ''notes''"
    using missing_field_rejected [OF nb, of testEnv "[]" initial] unfolding eb b by auto
  ultimately show ?thesis
    using a b ea eb by blast
qed

section \<open>Songs\<close>

subsection \<open>The program of a track\<close>

lemma loopActions_replicate:
  "loopActions i loops body = concat (replicate (nat (loops - i)) body)"
proof (induction i loops body rule: loopActions.induct)
  case (1 i loops body)
  show ?case
  proof (cases "i < loops")
    case True
    then have "nat (loops - i) = Suc (nat (loops - (i + 1)))"
      by simp
    with True "1.IH" show ?thesis
      by (subst loopActions.simps) simp
  next
    case False
    then show ?thesis
      by (subst loopActions.simps) simp
  qed
qed

lemma eventsActions_concat:
  "eventsActions bd tp chan evs = concat (map (eventActions bd tp chan) evs)"
  by (induction evs) auto

lemma filter_noteActions:
  "filter (\<lambda>a. \<not> isLog a) (noteActions tp s v (map Some ns))
     = map (\<lambda>n. ASend tp (numbers [s, n, v])) ns"
  by (induction ns) (auto simp: numbers_def)

lemma filter_eventActions:
  assumes "eventComplete ev"
  shows "filter (\<lambda>a. \<not> isLog a) (eventActions bd tp (c - 1) ev) = expectedEvent tp c bd ev"
proof -
  obtain n d where nd: "note_event.note ev = Some n" "note_event.duration ev = Some d"
    using assms by (auto simp: eventComplete_def)
  have one: "filter (\<lambda>a. \<not> isLog a) (noteActions tp s v [Some k])
               = [ASend tp (numbers [s, k, v])]" for s v k
    using filter_noteActions [of tp s v "[k]"] by simp
  show ?thesis
  proof (cases "note_event.cc ev")
    case None
    then show ?thesis
      using nd
      by (cases n)
        (simp_all add: eventActions_def expectedEvent_def Let_def filter_noteActions one
          numbers_def)
  next
    case (Some x)
    then obtain k w where "cc_spec.controller x = Some k" "cc_spec.value x = Some w"
      using assms by (auto simp: eventComplete_def)
    then show ?thesis
      using nd Some
      by (cases n)
        (simp_all add: eventActions_def expectedEvent_def Let_def filter_noteActions one
          numbers_def)
  qed
qed

lemma filter_concat_replicate:
  "filter P (concat (replicate n xs)) = concat (replicate n (filter P xs))"
  by (induction n) auto

lemma filter_trackActions:
  assumes "trackComplete t"
  shows "filter (\<lambda>a. \<not> isLog a) (trackActions argsPort bd t) = expectedTrack argsPort bd t"
proof -
  obtain evs where evs: "track.notes t = Some evs" "list_all eventComplete evs"
    using assms by (auto simp: trackComplete_def split: option.splits)
  have "list_all eventComplete es \<Longrightarrow>
        filter (\<lambda>a. \<not> isLog a) (eventsActions bd tp (c - 1) es)
          = concat (map (expectedEvent tp c bd) es)" for tp c es
    by (induction es) (auto simp: filter_eventActions)
  then show ?thesis
    using evs
    by (cases "track.instrument t")
      (simp_all add: trackActions_def expectedTrack_def iterateNotes_def Let_def
        loopActions_replicate filter_concat_replicate numbers_def)
qed

subsection \<open>Runs of the event loop\<close>

lemma doneBy_simps [simp]:
  "doneBy i [] = []"
  "doneBy i (xs @ ys) = doneBy i xs @ doneBy i ys"
  "doneBy i [(j, a)] = (if j = i then [a] else [])"
  by (simp_all add: doneBy_def)

lemma onTrack_start: "onTrack (map (trackActions p bd) ts) (startSong p bd ts st)"
  by (simp add: onTrack_def startSong_def)

lemma onTrack_step:
  assumes "onTrack progs r"
  shows "onTrack progs (stepTrack e j r)"
proof (cases "j < length (threads r)")
  case False
  then show ?thesis
    using assms by (simp add: stepTrack_def)
next
  case j: True
  show ?thesis
  proof (cases "threads r ! j")
    case (Failed err)
    then show ?thesis
      using assms j by (simp add: stepTrack_def)
  next
    case (Running acts)
    show ?thesis
    proof (cases acts)
      case Nil
      then show ?thesis
        using assms j Running by (simp add: stepTrack_def)
    next
      case (Cons a rest)
      obtain res st1 where ex: "execAction e a (world r) = (res, st1)"
        by (cases "execAction e a (world r)")
      have len: "length (threads r) = length progs"
        using assms by (simp add: onTrack_def)
      have at: "doneBy j (performed r) @ a # rest = progs ! j"
        using assms j Running Cons len by (auto simp: onTrack_def)
      have other: "case threads r ! i of Failed err \<Rightarrow> True
                     | Running rest \<Rightarrow> doneBy i (performed r) @ rest = progs ! i"
        if "i < length progs" for i
        using assms that by (simp add: onTrack_def)
      show ?thesis
      proof (cases res)
        case (Inl err)
        have new: "stepTrack e j r = r \<lparr> threads := (threads r)[j := Failed err], world := st1,
                  rejected := (case rejected r of None \<Rightarrow> Some err | Some x \<Rightarrow> Some x) \<rparr>"
          using j Running Cons ex Inl by (simp add: stepTrack_def)
        show ?thesis
          unfolding onTrack_def new
        proof (intro conjI allI impI)
          fix i
          assume i: "i < length progs"
          show "case threads (r \<lparr> threads := (threads r)[j := Failed err], world := st1,
                  rejected := (case rejected r of None \<Rightarrow> Some err | Some x \<Rightarrow> Some x) \<rparr>) ! i of
                  Failed err \<Rightarrow> True
                | Running rest \<Rightarrow> doneBy i (performed (r \<lparr> threads := (threads r)[j := Failed err],
                    world := st1,
                    rejected := (case rejected r of None \<Rightarrow> Some err | Some x \<Rightarrow> Some x) \<rparr>)) @ rest
                      = progs ! i"
            using other [OF i] i len by (cases "i = j") (simp_all split: thread.splits)
        qed (simp add: len)
      next
        case (Inr u)
        have new: "stepTrack e j r = r \<lparr> threads := (threads r)[j := Running rest], world := st1,
                  performed := performed r @ [(j, a)] \<rparr>"
          using j Running Cons ex Inr by (simp add: stepTrack_def)
        show ?thesis
          unfolding onTrack_def new
        proof (intro conjI allI impI)
          fix i
          assume i: "i < length progs"
          show "case threads (r \<lparr> threads := (threads r)[j := Running rest], world := st1,
                  performed := performed r @ [(j, a)] \<rparr>) ! i of
                  Failed err \<Rightarrow> True
                | Running rest' \<Rightarrow> doneBy i (performed (r \<lparr> threads := (threads r)[j := Running rest],
                    world := st1, performed := performed r @ [(j, a)] \<rparr>)) @ rest'
                      = progs ! i"
          proof (cases "i = j")
            case True
            then show ?thesis
              using at i len by simp
          next
            case False
            then show ?thesis
              using other [OF i] i len by (simp split: thread.splits)
          qed
        qed (simp add: len)
      qed
    qed
  qed
qed

lemma onTrack_run: "onTrack progs r \<Longrightarrow> onTrack progs (runSchedule e sched r)"
  by (induction sched arbitrary: r) (auto simp: onTrack_step)

lemma returned_track:
  assumes "i < length ts" and "trackComplete (ts ! i)"
    and "threads (runSchedule e sched (startSong p bd ts st)) ! i = Running []"
  shows "trackTimeline i (performed (runSchedule e sched (startSong p bd ts st)))
           = expectedTrack p bd (ts ! i)"
proof -
  have "onTrack (map (trackActions p bd) ts) (runSchedule e sched (startSong p bd ts st))"
    by (rule onTrack_run [OF onTrack_start])
  then have "doneBy i (performed (runSchedule e sched (startSong p bd ts st)))
               = trackActions p bd (ts ! i)"
    using assms(1,3) by (auto simp: onTrack_def)
  then show ?thesis
    by (simp add: trackTimeline_def filter_trackActions [OF assms(2)])
qed

lemma deviceSends_append: "deviceSends (xs @ ys) = deviceSends xs @ deviceSends ys"
  by (induction xs rule: deviceSends.induct) auto

lemma performedSends_append: "performedSends (xs @ ys) = performedSends xs @ performedSends ys"
  by (induction xs rule: performedSends.induct) auto

lemma sendMessageRaw_deviceSends:
  assumes "sendMessageRaw jzz q raw st = (res, st')"
  shows "deviceSends (effects st')
           = deviceSends (effects st) @ (case res of Inl err \<Rightarrow> [] | Inr u \<Rightarrow> [(q, raw)])"
proof (cases "allDefined raw")
  case None
  then show ?thesis
    using assms
    by (auto simp: sendMessageRaw_def deviceSends_append split: option.splits)
next
  case (Some m)
  then have "raw = numbers m"
    by (rule allDefined_Some)
  then show ?thesis
    using assms Some
    by (auto simp: sendMessageRaw_def sendMessage_def deviceSends_append split: option.splits)
qed

lemma exec_deviceSends:
  assumes "execAction e a st = (res, st')"
  shows "deviceSends (effects st')
           = deviceSends (effects st)
               @ (case res of Inl err \<Rightarrow> [] | Inr u \<Rightarrow> performedSends [(i, a)])"
proof (cases a)
  case (ASend q raw)
  then show ?thesis
    using assms sendMessageRaw_deviceSends [of "openMidiOut e" q raw st res st']
    by (cases res) simp_all
next
  case (ALog q raw)
  then show ?thesis
    using assms by (auto simp: logMidiRaw_def split: option.splits)
next
  case (AWait d)
  then show ?thesis
    using assms by (auto simp: deviceSends_append)
next
  case (AThrow err)
  then show ?thesis
    using assms by auto
qed

lemma step_deviceSends:
  assumes "deviceSends (effects (world r)) = base @ performedSends (performed r)"
  shows "deviceSends (effects (world (stepTrack e j r)))
           = base @ performedSends (performed (stepTrack e j r))"
proof (cases "j < length (threads r)")
  case False
  then show ?thesis
    using assms by (simp add: stepTrack_def)
next
  case j: True
  show ?thesis
  proof (cases "threads r ! j")
    case (Failed err)
    then show ?thesis
      using assms j by (simp add: stepTrack_def)
  next
    case (Running acts)
    show ?thesis
    proof (cases acts)
      case Nil
      then show ?thesis
        using assms j Running by (simp add: stepTrack_def)
    next
      case (Cons a rest)
      obtain res st1 where ex: "execAction e a (world r) = (res, st1)"
        by (cases "execAction e a (world r)")
      show ?thesis
        using exec_deviceSends [OF ex, of j] assms j Running Cons ex
        by (cases res) (simp_all add: stepTrack_def performedSends_append)
    qed
  qed
qed

lemma run_deviceSends:
  "deviceSends (effects (world r)) = base @ performedSends (performed r) \<Longrightarrow>
   deviceSends (effects (world (runSchedule e sched r)))
     = base @ performedSends (performed (runSchedule e sched r))"
  by (induction sched arbitrary: r) (auto simp: step_deviceSends)

subsection \<open>Runs in which nothing throws\<close>

lemma handleFor_sendMessage:
  assumes "handleFor e st q = Some h" and "sendMessage (openMidiOut e) q' m st = (res, st')"
  shows "handleFor e st' q = Some h"
  using assms by (auto simp: sendMessage_def handleFor_def split: option.splits if_splits)

lemma handleFor_exec:
  assumes "handleFor e st q = Some h" and "execAction e a st = (res, st')"
  shows "handleFor e st' q = Some h"
proof (cases a)
  case (ASend q' raw)
  show ?thesis
  proof (cases "allDefined raw")
    case None
    then show ?thesis
      using assms ASend
      by (auto simp: sendMessageRaw_def handleFor_def split: option.splits if_splits)
  next
    case (Some m)
    then show ?thesis
      using assms ASend handleFor_sendMessage [of e st q h q' m res st']
      by (simp add: sendMessageRaw_def)
  qed
next
  case (ALog q' raw)
  then show ?thesis
    using assms by (auto simp: logMidiRaw_def handleFor_def split: option.splits)
next
  case (AWait d)
  then show ?thesis
    using assms by (auto simp: handleFor_def)
next
  case (AThrow err)
  then show ?thesis
    using assms by auto
qed

lemma safeAction_exec:
  assumes "safeAction e st a"
  shows "\<exists>st'. execAction e a st = (Inr (), st')"
proof (cases a)
  case (ASend q raw)
  then obtain m h where "allDefined raw = Some m" "handleFor e st q = Some h"
    using assms by auto
  then show ?thesis
    using ASend sendMessage_ok [of e st q h m] by (simp add: sendMessageRaw_def)
next
  case (ALog q raw)
  then show ?thesis
    using assms by (auto simp: logMidiRaw_def)
next
  case (AWait d)
  then show ?thesis by simp
next
  case (AThrow err)
  then show ?thesis
    using assms by simp
qed

lemma safeAction_kept:
  assumes "safeAction e st b" and "execAction e a st = (res, st')"
  shows "safeAction e st' b"
proof (cases b)
  case (ASend q raw)
  then obtain h where "handleFor e st q = Some h"
    using assms(1) by auto
  from handleFor_exec [OF this assms(2)] show ?thesis
    using assms(1) ASend by simp
qed (use assms(1) in simp_all)

lemma unfailing_step:
  assumes "unfailing e r"
  shows "unfailing e (stepTrack e j r)
      \<and> length (threads (stepTrack e j r)) = length (threads r)
      \<and> (\<forall>i < length (threads r).
           threads (stepTrack e j r) ! i
             = Running (drop (if i = j then 1 else 0) (remaining (threads r ! i))))"
proof -
  have run: "\<exists>acts. threads r ! i = Running acts \<and> list_all (safeAction e (world r)) acts"
    if "i < length (threads r)" for i
    using assms that by (simp add: unfailing_def)
  have rej: "rejected r = None"
    using assms by (simp add: unfailing_def)
  have same: "threads r ! i = Running (remaining (threads r ! i))"
    if "i < length (threads r)" for i
    using run [OF that] by auto
  show ?thesis
  proof (cases "j < length (threads r)")
    case False
    then have "stepTrack e j r = r"
      by (simp add: stepTrack_def)
    then show ?thesis
      using assms False same by auto
  next
    case j: True
    obtain acts where acts: "threads r ! j = Running acts"
      and safe: "list_all (safeAction e (world r)) acts"
      using run [OF j] by blast
    show ?thesis
    proof (cases acts)
      case Nil
      then have "stepTrack e j r = r"
        using j acts by (simp add: stepTrack_def)
      then show ?thesis
        using assms acts Nil same by auto
    next
      case (Cons a rest)
      then obtain st1 where ex: "execAction e a (world r) = (Inr (), st1)"
        using safeAction_exec [of e "world r" a] safe by auto
      have new: "stepTrack e j r = r \<lparr> threads := (threads r)[j := Running rest], world := st1,
                  performed := performed r @ [(j, a)] \<rparr>"
        using j acts Cons ex by (simp add: stepTrack_def)
      have kept: "list_all (safeAction e st1) xs" if "list_all (safeAction e (world r)) xs" for xs
        using that safeAction_kept [OF _ ex] by (auto simp: list_all_iff)
      have "unfailing e (stepTrack e j r)"
        unfolding unfailing_def new
      proof (intro conjI allI impI)
        fix i
        assume "i < length (threads (r \<lparr> threads := (threads r)[j := Running rest], world := st1,
                  performed := performed r @ [(j, a)] \<rparr>))"
        then have i: "i < length (threads r)"
          by simp
        show "\<exists>xs. threads (r \<lparr> threads := (threads r)[j := Running rest], world := st1,
                  performed := performed r @ [(j, a)] \<rparr>) ! i = Running xs
                \<and> list_all (safeAction e (world (r \<lparr> threads := (threads r)[j := Running rest],
                     world := st1, performed := performed r @ [(j, a)] \<rparr>))) xs"
        proof (cases "i = j")
          case True
          then show ?thesis
            using j kept [of rest] safe Cons by simp
        next
          case False
          then show ?thesis
            using run [OF i] kept by auto
        qed
      qed (simp add: rej)
      moreover have "threads (stepTrack e j r) ! i
             = Running (drop (if i = j then 1 else 0) (remaining (threads r ! i)))"
        if "i < length (threads r)" for i
        using that run [OF that] acts Cons by (cases "i = j") (auto simp: new)
      ultimately show ?thesis
        by (simp add: new)
    qed
  qed
qed

lemma unfailing_run:
  assumes "unfailing e r"
  shows "unfailing e (runSchedule e sched r)
       \<and> length (threads (runSchedule e sched r)) = length (threads r)
       \<and> (\<forall>i < length (threads r).
            threads (runSchedule e sched r) ! i
              = Running (drop (count_list sched i) (remaining (threads r ! i))))"
  using assms
proof (induction sched arbitrary: r)
  case Nil
  then show ?case
    by (auto simp: unfailing_def)
next
  case (Cons j sched)
  let ?r = "stepTrack e j r"
  note both = unfailing_step [OF Cons.prems, of j]
  note step = both [THEN conjunct1] both [THEN conjunct2, THEN conjunct1]
    both [THEN conjunct2, THEN conjunct2]
  note ih = Cons.IH [OF step(1)]
  have "threads (runSchedule e sched ?r) ! i
          = Running (drop (count_list (j # sched) i) (remaining (threads r ! i)))"
    if "i < length (threads r)" for i
  proof -
    have "threads (runSchedule e sched ?r) ! i
            = Running (drop (count_list sched i) (remaining (threads ?r ! i)))"
      using ih that step(2) by simp
    also have "remaining (threads ?r ! i)
            = drop (if i = j then 1 else 0) (remaining (threads r ! i))"
      using step(3) that by simp
    finally show ?thesis
      by (cases "i = j") (simp_all add: add.commute)
  qed
  then show ?case
    using ih step(2) by simp
qed

subsection \<open>A song whose items are complete and whose ports open\<close>

lemma safe_noteActions:
  assumes "handleFor e st tp \<noteq> None"
  shows "list_all (safeAction e st) (noteActions tp s v (map Some ns))"
  using assms by (induction ns) simp_all

lemma safe_eventActions:
  assumes "eventComplete ev" and "handleFor e st tp \<noteq> None"
  shows "list_all (safeAction e st) (eventActions bd tp chan ev)"
proof -
  obtain n where n: "note_event.note ev = Some n"
    using assms(1) by (auto simp: eventComplete_def)
  have one: "list_all (safeAction e st) (noteActions tp s v [Some k])" for s v k
    using safe_noteActions [OF assms(2), of s v "[k]"] by simp
  have cc: "cc_spec.controller x \<noteq> None \<and> cc_spec.value x \<noteq> None"
    if "note_event.cc ev = Some x" for x
    using assms(1) that by (simp add: eventComplete_def)
  show ?thesis
  proof (cases "note_event.cc ev")
    case None
    then show ?thesis
      using n one safe_noteActions [OF assms(2)]
      by (cases n) (simp_all add: eventActions_def Let_def)
  next
    case (Some x)
    then show ?thesis
      using n one safe_noteActions [OF assms(2)] cc [OF Some] assms(2)
      by (cases n) (auto simp: eventActions_def Let_def)
  qed
qed

lemma safe_trackActions:
  assumes "trackComplete t" and "handleFor e st (orElse (track.port t) p) \<noteq> None"
  shows "list_all (safeAction e st) (trackActions p bd t)"
proof -
  obtain evs where evs: "track.notes t = Some evs" "list_all eventComplete evs"
    using assms(1) by (auto simp: trackComplete_def split: option.splits)
  have body: "list_all (safeAction e st) (eventsActions bd tp chan es)"
    if "list_all eventComplete es" "handleFor e st tp \<noteq> None" for tp chan es
    using that by (induction es) (simp_all add: safe_eventActions)
  have rep: "list_all P (concat (replicate k xs))" if "list_all P xs" for P k
    and xs :: "action list"
    using that by (induction k) simp_all
  have loop: "list_all (safeAction e st)
      (loopActions 0 (orElse (track.loop t) 1)
         (iterateNotes bd (orElse (track.port t) p) (orElse (track.channel t) 1 - 1)
            (track.notes t)))"
    unfolding loopActions_replicate
    by (rule rep) (simp add: iterateNotes_def evs body assms(2))
  show ?thesis
    using loop assms(2)
    by (cases "track.instrument t") (simp_all add: trackActions_def Let_def)
qed

lemma unfailing_start:
  assumes "list_all trackComplete ts"
    and "\<forall>t \<in> set ts. handleFor e st (orElse (track.port t) p) \<noteq> None"
  shows "unfailing e (startSong p bd ts st)"
proof -
  have "list_all (safeAction e st) (trackActions p bd (ts ! i))" if "i < length ts" for i
  proof (rule safe_trackActions)
    show "trackComplete (ts ! i)"
      using assms(1) that by (simp add: list_all_length)
    show "handleFor e st (orElse (track.port (ts ! i)) p) \<noteq> None"
      using assms(2) that by simp
  qed
  then show ?thesis
    by (simp add: unfailing_def startSong_def)
qed

lemma count_list_replicate: "count_list (replicate n x) y = (if x = y then n else 0)"
  by (induction n) (simp_all split: if_splits)

lemma count_list_concat_upt:
  "count_list (concat (map (\<lambda>i. replicate (f i) i) [0..<n])) j = (if j < n then f j else 0)"
  by (induction n) (auto simp: count_list_replicate)

lemma oneAfterAnother_resumesEnough: "resumesEnough progs (oneAfterAnother progs)"
  by (simp add: resumesEnough_def oneAfterAnother_def count_list_concat_upt)

lemma programChanges_expectedEvent: "filter isProgramChange (expectedEvent tp c bd ev) = []"
  by (cases "note_event.cc ev")
    (simp_all add: expectedEvent_def Let_def filter_empty_conv numbers_def)

lemma programChanges_expectedTrack:
  "length (filter isProgramChange (expectedTrack p bd t))
     = (case track.instrument t of None \<Rightarrow> 0 | Some ins \<Rightarrow> 1)"
proof -
  have "filter isProgramChange (concat (map (expectedEvent tp c bd) evs)) = []" for tp c evs
    by (induction evs) (simp_all add: programChanges_expectedEvent)
  then have "filter isProgramChange (concat (replicate n (concat (map (expectedEvent tp c bd) evs))))
      = []" for n tp c evs
    by (induction n) simp_all
  then show ?thesis
    by (cases "track.instrument t") (simp_all add: expectedTrack_def Let_def numbers_def)
qed

lemma midi_play_song_run:
  assumes "p \<noteq> []" and "ts \<noteq> []"
  shows "midi_play_song e sched \<lparr> play_song_args.port = Some p, play_song_args.bpm = b,
            play_song_args.tracks = Some ts \<rparr> st
          = (let run = runSchedule e sched (startSong p (beatDurationOf (orElse b 120)) ts st)
             in case rejected run of
                  Some err \<Rightarrow> (Some (Inl err), world run)
                | None \<Rightarrow>
                    if list_all finished (threads run) then
                      (Some (Inr (''Played song with '' @ showInt (int (length ts))
                           @ '' tracks at '' @ showNumber e (orElse b 120) @ '' BPM'')), world run)
                    else (None, world run))"
  using assms by (simp add: midi_play_song_def Let_def)

lemma midi_play_song_world:
  assumes "p \<noteq> []" and "ts \<noteq> []"
  shows "snd (midi_play_song e sched \<lparr> play_song_args.port = Some p, play_song_args.bpm = b,
            play_song_args.tracks = Some ts \<rparr> st)
          = world (runSchedule e sched (startSong p (beatDurationOf (orElse b 120)) ts st))"
  unfolding midi_play_song_run [OF assms] by (simp add: Let_def split: option.splits)

text \<open>
  A song whose items are complete and whose ports open never rejects; once every track
  has been resumed often enough, every track has returned and the call returns its summary.
\<close>

lemma complete_song_run:
  assumes "list_all trackComplete ts"
    and "\<forall>t \<in> set ts. handleFor e st (orElse (track.port t) p) \<noteq> None"
  shows "rejected (runSchedule e sched (startSong p bd ts st)) = None"
    and "length (threads (runSchedule e sched (startSong p bd ts st))) = length ts"
    and "resumesEnough (map (trackActions p bd) ts) sched \<Longrightarrow> i < length ts \<Longrightarrow>
           threads (runSchedule e sched (startSong p bd ts st)) ! i = Running []"
proof -
  note run = unfailing_run [OF unfailing_start [OF assms, of bd], of sched]
  show "rejected (runSchedule e sched (startSong p bd ts st)) = None"
    using run by (simp add: unfailing_def)
  show "length (threads (runSchedule e sched (startSong p bd ts st))) = length ts"
    using run by (simp add: startSong_def)
  show "threads (runSchedule e sched (startSong p bd ts st)) ! i = Running []"
    if "resumesEnough (map (trackActions p bd) ts) sched" "i < length ts"
  proof -
    have "length (trackActions p bd (ts ! i)) \<le> count_list sched i"
      using that by (simp add: resumesEnough_def)
    moreover have "threads (runSchedule e sched (startSong p bd ts st)) ! i
       = Running (drop (count_list sched i) (remaining (threads (startSong p bd ts st) ! i)))"
      using run that(2) by (simp add: startSong_def)
    ultimately show ?thesis
      using that(2) by (simp add: startSong_def)
  qed
qed

subsection \<open>The example song\<close>

lemma exampleSong_complete:
  "exampleTracks \<noteq> []"
  "length exampleTracks = 2"
  "list_all trackComplete exampleTracks"
  "track.port (exampleTracks ! 0) = None"
  "track.port (exampleTracks ! 1) = None"
  "track.instrument (exampleTracks ! 0) = Some 5"
  "track.instrument (exampleTracks ! 1) = None"
  by (simp_all add: exampleTracks_def trackComplete_def eventComplete_def)

lemma exampleSong_ports:
  "\<forall>t \<in> set exampleTracks. handleFor testEnv initial (orElse (track.port t) ''loopMIDI'') \<noteq> None"
  by (simp add: exampleTracks_def handleFor_testEnv_initial)

lemma exampleSong_lengths:
  "length (trackActions ''loopMIDI'' (beatDurationOf 120) (exampleTracks ! 0)) = 16"
  "length (trackActions ''loopMIDI'' (beatDurationOf 120) (exampleTracks ! 1)) = 9"
  "count_list exampleSchedule 0 = 16"
  "count_list exampleSchedule 1 = 9"
  by code_simp+

lemma exampleSong_resumesEnough:
  "resumesEnough (map (trackActions ''loopMIDI'' (beatDurationOf 120)) exampleTracks)
     exampleSchedule"
  unfolding resumesEnough_def
proof (intro allI impI)
  fix i
  assume "i < length (map (trackActions ''loopMIDI'' (beatDurationOf 120)) exampleTracks)"
  then have "i = 0 \<or> i = 1"
    by (auto simp: exampleSong_complete(2))
  then show "length (map (trackActions ''loopMIDI'' (beatDurationOf 120)) exampleTracks ! i)
               \<le> count_list exampleSchedule i"
    using exampleSong_lengths by (auto simp: exampleSong_complete(2))
qed

lemma exampleSong_expected:
  "expectedTrack ''loopMIDI'' (beatDurationOf 120) (exampleTracks ! 0)
     = [ASend ''loopMIDI'' (numbers [0xC1, 5]),
        ASend ''loopMIDI'' (numbers [0xB1, 7, 100]), ASend ''loopMIDI'' (numbers [0x91, 60, 64]),
        AWait 500, ASend ''loopMIDI'' (numbers [0x81, 60, 64]),
        ASend ''loopMIDI'' (numbers [0xB1, 7, 100]), ASend ''loopMIDI'' (numbers [0x91, 60, 64]),
        AWait 500, ASend ''loopMIDI'' (numbers [0x81, 60, 64])]"
  "expectedTrack ''loopMIDI'' (beatDurationOf 120) (exampleTracks ! 1)
     = [ASend ''loopMIDI'' (numbers [0x90, 60, 90]), ASend ''loopMIDI'' (numbers [0x90, 64, 90]),
        AWait 1000,
        ASend ''loopMIDI'' (numbers [0x80, 60, 90]), ASend ''loopMIDI'' (numbers [0x80, 64, 90])]"
  by (simp_all add: expectedTrack_def expectedEvent_def exampleTracks_def getDuration_def
      beatDurationOf_def Let_def numeral_2_eq_2)

lemma exampleSong_text:
  "''Played song with '' @ showInt (int (length exampleTracks)) @ '' tracks at ''
     @ showNumber testEnv 120 @ '' BPM'' = ''Played song with 2 tracks at 120 BPM''"
  by code_simp

text \<open>
  C1. In every run of \<open>midi_play_song\<close>, whatever the order in which the event loop
  resumes the tracks: the messages that reached the ports are the sends the tracks
  performed, in that order; and a track with complete items that has returned has performed
  exactly its timeline, in order: its program change \<open>[0xC0 + (channel - 1), instrument]\<close>
  first and only once if it names an instrument, then its whole event sequence as many
  times as its loop count says (once by default), each event being its control change
  \<open>[0xB0 + (channel - 1), controller, value]\<close> if it has one, then its note-ons, then
  its wait, then its note-offs. When the items of every track are complete and every
  track's port opens, the call never fails, and as soon as the schedule has resumed each
  track as often as the track has actions, every track of the song has returned in that
  one run with exactly its timeline and the call returns its summary. Every song has such
  a schedule.
\<close>

theorem play_song_track_timeline:
  assumes "p \<noteq> []" and "ts \<noteq> []"
  shows "(let bd = beatDurationOf (orElse b 120);
              progs = map (trackActions p bd) ts;
              run = runSchedule e sched (startSong p bd ts st);
              result = midi_play_song e sched \<lparr> play_song_args.port = Some p,
                         play_song_args.bpm = b, play_song_args.tracks = Some ts \<rparr> st
          in snd result = world run
           \<and> deviceSends (effects (world run))
               = deviceSends (effects st) @ performedSends (performed run)
           \<and> (\<forall>i < length ts.
                 trackComplete (ts ! i) \<and> threads run ! i = Running [] \<longrightarrow>
                   trackTimeline i (performed run) = expectedTrack p bd (ts ! i)
                   \<and> length (filter isProgramChange (trackTimeline i (performed run)))
                       = (case track.instrument (ts ! i) of None \<Rightarrow> 0 | Some ins \<Rightarrow> 1))
           \<and> (list_all trackComplete ts
                \<and> (\<forall>t \<in> set ts. handleFor e st (orElse (track.port t) p) \<noteq> None) \<longrightarrow>
                 (\<forall>err. fst result \<noteq> Some (Inl err))
                 \<and> (resumesEnough progs sched \<longrightarrow>
                       (\<forall>i < length ts.
                          threads run ! i = Running []
                          \<and> trackTimeline i (performed run) = expectedTrack p bd (ts ! i))
                       \<and> list_all finished (threads run)
                       \<and> fst result
                           = Some (Inr (''Played song with '' @ showInt (int (length ts))
                               @ '' tracks at '' @ showNumber e (orElse b 120) @ '' BPM''))))
           \<and> resumesEnough progs (oneAfterAnother progs))"
proof -
  define bd where "bd = beatDurationOf (orElse b 120)"
  define progs where "progs = map (trackActions p bd) ts"
  define run where "run = runSchedule e sched (startSong p bd ts st)"
  define result where "result = midi_play_song e sched \<lparr> play_song_args.port = Some p,
                         play_song_args.bpm = b, play_song_args.tracks = Some ts \<rparr> st"
  define summary where "summary = ''Played song with '' @ showInt (int (length ts))
                               @ '' tracks at '' @ showNumber e (orElse b 120) @ '' BPM''"
  have res: "result = (case rejected run of
                  Some err \<Rightarrow> (Some (Inl err), world run)
                | None \<Rightarrow>
                    if list_all finished (threads run) then (Some (Inr summary), world run)
                    else (None, world run))"
    unfolding result_def run_def bd_def summary_def midi_play_song_run [OF assms]
    by (simp add: Let_def)
  have w: "snd result = world run"
    unfolding res by (simp split: option.splits)
  have "deviceSends (effects (world (startSong p bd ts st)))
          = deviceSends (effects st) @ performedSends (performed (startSong p bd ts st))"
    by (simp add: startSong_def)
  then have d: "deviceSends (effects (world run))
               = deviceSends (effects st) @ performedSends (performed run)"
    unfolding run_def by (rule run_deviceSends)
  have r: "trackTimeline i (performed run) = expectedTrack p bd (ts ! i)
         \<and> length (filter isProgramChange (trackTimeline i (performed run)))
             = (case track.instrument (ts ! i) of None \<Rightarrow> 0 | Some ins \<Rightarrow> 1)"
    if "i < length ts" "trackComplete (ts ! i)" "threads run ! i = Running []" for i
    using returned_track [OF that(1,2), of e sched p bd st] that(3)
    unfolding run_def by (simp add: programChanges_expectedTrack)
  have c: "(\<forall>err. fst result \<noteq> Some (Inl err))
         \<and> (resumesEnough progs sched \<longrightarrow>
               (\<forall>i < length ts.
                  threads run ! i = Running []
                  \<and> trackTimeline i (performed run) = expectedTrack p bd (ts ! i))
               \<and> list_all finished (threads run)
               \<and> fst result = Some (Inr summary))"
    if complete: "list_all trackComplete ts"
      and ports: "\<forall>t \<in> set ts. handleFor e st (orElse (track.port t) p) \<noteq> None"
  proof -
    note facts = complete_song_run [OF complete ports, where bd = bd and sched = sched,
        folded run_def progs_def]
    have rej: "rejected run = None"
      by (rule facts(1))
    have len: "length (threads run) = length ts"
      by (rule facts(2))
    have noerr: "\<forall>err. fst result \<noteq> Some (Inl err)"
      unfolding res by (simp add: rej)
    have fin: "(\<forall>i < length ts.
                  threads run ! i = Running []
                  \<and> trackTimeline i (performed run) = expectedTrack p bd (ts ! i))
               \<and> list_all finished (threads run)
               \<and> fst result = Some (Inr summary)"
      if enough: "resumesEnough progs sched"
    proof -
      have returned: "threads run ! i = Running []" if "i < length ts" for i
        using facts(3) [OF enough that] .
      have timeline: "trackTimeline i (performed run) = expectedTrack p bd (ts ! i)"
        if "i < length ts" for i
        using r [OF that _ returned [OF that]] complete that by (simp add: list_all_length)
      have all: "list_all finished (threads run)"
        using returned len by (simp add: list_all_length)
      have "fst result = Some (Inr summary)"
        unfolding res by (simp add: rej all)
      then show ?thesis
        using returned timeline all by blast
    qed
    show ?thesis
      using noerr fin by blast
  qed
  have o: "resumesEnough progs (oneAfterAnother progs)"
    by (rule oneAfterAnother_resumesEnough)
  show ?thesis
    unfolding Let_def bd_def [symmetric] progs_def [symmetric] run_def [symmetric]
      result_def [symmetric] summary_def [symmetric]
    using w d r c o by blast
qed

theorem play_song_track_timeline_witness:
  "''loopMIDI'' \<noteq> [] \<and> exampleTracks \<noteq> [] \<and> length exampleTracks = 2
   \<and> list_all trackComplete exampleTracks
   \<and> handleFor testEnv initial (orElse (track.port (exampleTracks ! 0)) ''loopMIDI'') \<noteq> None
   \<and> handleFor testEnv initial (orElse (track.port (exampleTracks ! 1)) ''loopMIDI'') \<noteq> None
   \<and> length (trackActions ''loopMIDI'' (beatDurationOf 120) (exampleTracks ! 0))
       \<le> count_list exampleSchedule 0
   \<and> length (trackActions ''loopMIDI'' (beatDurationOf 120) (exampleTracks ! 1))
       \<le> count_list exampleSchedule 1
   \<and> threads (runSchedule testEnv exampleSchedule
        (startSong ''loopMIDI'' (beatDurationOf 120) exampleTracks initial)) ! 0 = Running []
   \<and> threads (runSchedule testEnv exampleSchedule
        (startSong ''loopMIDI'' (beatDurationOf 120) exampleTracks initial)) ! 1 = Running []
   \<and> list_all finished (threads (runSchedule testEnv exampleSchedule
        (startSong ''loopMIDI'' (beatDurationOf 120) exampleTracks initial)))
   \<and> trackTimeline 0 (performed (runSchedule testEnv exampleSchedule
        (startSong ''loopMIDI'' (beatDurationOf 120) exampleTracks initial)))
       = [ASend ''loopMIDI'' (numbers [0xC1, 5]),
          ASend ''loopMIDI'' (numbers [0xB1, 7, 100]),
          ASend ''loopMIDI'' (numbers [0x91, 60, 64]), AWait 500,
          ASend ''loopMIDI'' (numbers [0x81, 60, 64]),
          ASend ''loopMIDI'' (numbers [0xB1, 7, 100]),
          ASend ''loopMIDI'' (numbers [0x91, 60, 64]), AWait 500,
          ASend ''loopMIDI'' (numbers [0x81, 60, 64])]
   \<and> trackTimeline 1 (performed (runSchedule testEnv exampleSchedule
        (startSong ''loopMIDI'' (beatDurationOf 120) exampleTracks initial)))
       = [ASend ''loopMIDI'' (numbers [0x90, 60, 90]),
          ASend ''loopMIDI'' (numbers [0x90, 64, 90]), AWait 1000,
          ASend ''loopMIDI'' (numbers [0x80, 60, 90]),
          ASend ''loopMIDI'' (numbers [0x80, 64, 90])]
   \<and> length (filter isProgramChange (trackTimeline 0 (performed (runSchedule testEnv
        exampleSchedule (startSong ''loopMIDI'' (beatDurationOf 120) exampleTracks initial)))))
       = 1
   \<and> length (filter isProgramChange (trackTimeline 1 (performed (runSchedule testEnv
        exampleSchedule (startSong ''loopMIDI'' (beatDurationOf 120) exampleTracks initial)))))
       = 0
   \<and> fst (midi_play_song testEnv exampleSchedule
        \<lparr> play_song_args.port = Some ''loopMIDI'', play_song_args.bpm = None,
          play_song_args.tracks = Some exampleTracks \<rparr> initial)
       = Some (Inr ''Played song with 2 tracks at 120 BPM'')"
proof -
  define run where "run = runSchedule testEnv exampleSchedule
        (startSong ''loopMIDI'' (beatDurationOf 120) exampleTracks initial)"
  define result where "result = midi_play_song testEnv exampleSchedule
        \<lparr> play_song_args.port = Some ''loopMIDI'', play_song_args.bpm = None,
          play_song_args.tracks = Some exampleTracks \<rparr> initial"
  have p: "''loopMIDI'' \<noteq> []"
    by simp
  note ts = exampleSong_complete(1)
  have h0: "handleFor testEnv initial (orElse (track.port (exampleTracks ! 0)) ''loopMIDI'')
              \<noteq> None"
    and h1: "handleFor testEnv initial (orElse (track.port (exampleTracks ! 1)) ''loopMIDI'')
              \<noteq> None"
    unfolding exampleSong_complete(4,5) orElse.simps handleFor_testEnv_initial by simp_all
  have l0: "length (trackActions ''loopMIDI'' (beatDurationOf 120) (exampleTracks ! 0))
       \<le> count_list exampleSchedule 0"
    and l1: "length (trackActions ''loopMIDI'' (beatDurationOf 120) (exampleTracks ! 1))
       \<le> count_list exampleSchedule 1"
    by (simp_all only: exampleSong_lengths order_refl)
  note T = play_song_track_timeline [OF p ts, of None testEnv exampleSchedule initial,
      unfolded Let_def orElse.simps exampleSong_text, folded run_def result_def]
  have i0: "0 < length exampleTracks" and i1: "1 < length exampleTracks"
    by (simp_all add: exampleSong_complete(2))
  from T exampleSong_complete(3) exampleSong_ports exampleSong_resumesEnough
  have all: "\<forall>i < length exampleTracks.
               threads run ! i = Running []
               \<and> trackTimeline i (performed run)
                   = expectedTrack ''loopMIDI'' (beatDurationOf 120) (exampleTracks ! i)"
    and fin: "list_all finished (threads run)"
    and summary: "fst result = Some (Inr ''Played song with 2 tracks at 120 BPM'')"
    by blast+
  from all i0 have r0: "threads run ! 0 = Running []"
    and t0: "trackTimeline 0 (performed run)
               = expectedTrack ''loopMIDI'' (beatDurationOf 120) (exampleTracks ! 0)"
    by blast+
  from all i1 have r1: "threads run ! 1 = Running []"
    and t1: "trackTimeline 1 (performed run)
               = expectedTrack ''loopMIDI'' (beatDurationOf 120) (exampleTracks ! 1)"
    by blast+
  have tc0: "trackComplete (exampleTracks ! 0)" and tc1: "trackComplete (exampleTracks ! 1)"
    using exampleSong_complete(3) i0 i1 by (simp_all only: list_all_length)
  from T have once: "\<forall>i < length exampleTracks.
      trackComplete (exampleTracks ! i) \<and> threads run ! i = Running [] \<longrightarrow>
        trackTimeline i (performed run)
          = expectedTrack ''loopMIDI'' (beatDurationOf 120) (exampleTracks ! i)
        \<and> length (filter isProgramChange (trackTimeline i (performed run)))
            = (case track.instrument (exampleTracks ! i) of None \<Rightarrow> 0 | Some ins \<Rightarrow> 1)"
    by blast
  from once i0 tc0 r0
  have c0: "length (filter isProgramChange (trackTimeline 0 (performed run)))
              = (case track.instrument (exampleTracks ! 0) of None \<Rightarrow> 0 | Some ins \<Rightarrow> 1)"
    by blast
  from once i1 tc1 r1
  have c1: "length (filter isProgramChange (trackTimeline 1 (performed run)))
              = (case track.instrument (exampleTracks ! 1) of None \<Rightarrow> 0 | Some ins \<Rightarrow> 1)"
    by blast
  have n0: "length (filter isProgramChange (trackTimeline 0 (performed run))) = 1"
    and n1: "length (filter isProgramChange (trackTimeline 1 (performed run))) = 0"
    using c0 c1 by (simp_all only: exampleSong_complete option.case)
  show ?thesis
    unfolding run_def [symmetric] result_def [symmetric]
    using p ts exampleSong_complete(2,3) h0 h1 l0 l1 r0 r1 fin
      t0 [unfolded exampleSong_expected] t1 [unfolded exampleSong_expected] n0 n1 summary
    by blast
qed

section \<open>Numeric fields outside their declared range\<close>

lemma one_message:
  assumes "handleFor e st p = Some h"
  shows "\<exists>st'. sendAndLog e p m st = (Inr (), st')
           \<and> effects st' = effects st @ firstOpen st p h @ [Sent p h m]"
  using sendAndLog_ok [OF assms, of m] by blast

lemma midi_send_succeeds:
  assumes "wellFormed (Midi_send (Some a))"
    and "\<forall>q \<in> set (portsOf (Midi_send (Some a))). handleFor e st q \<noteq> None"
  shows "\<exists>text st'. midi_send e a st = (Inr text, st')"
proof -
  obtain p bs where a: "send_args.port a = Some p" "p \<noteq> []" "send_args.bytes a = Some bs"
    using assms(1) by (cases "send_args.port a") auto
  obtain h where "handleFor e st p = Some h"
    using assms(2) a by auto
  from one_message [OF this, of bs] show ?thesis
    using a by (auto simp: midi_send_def Let_def)
qed

lemma midi_note_on_succeeds:
  assumes "wellFormed (Midi_note_on (Some a))"
    and "\<forall>q \<in> set (portsOf (Midi_note_on (Some a))). handleFor e st q \<noteq> None"
  shows "\<exists>h st'. handleFor e st (the (note_args.port a)) = Some h
           \<and> midi_note_on e a st
               = (Inr (''Note On: note '' @ showInt (the (note_args.note a)) @ '', velocity ''
                         @ showInt (orElse (note_args.velocity a) 64) @ '', channel ''
                         @ showInt (orElse (note_args.channel a) 1)), st')
           \<and> effects st' = effects st @ firstOpen st (the (note_args.port a)) h
               @ [Sent (the (note_args.port a)) h
                    [0x90 + (orElse (note_args.channel a) 1 - 1), the (note_args.note a),
                     orElse (note_args.velocity a) 64]]"
proof -
  obtain p n where a: "note_args.port a = Some p" "p \<noteq> []" "note_args.note a = Some n"
    using assms(1) by (cases "note_args.port a") auto
  obtain h where h: "handleFor e st p = Some h"
    using assms(2) a by auto
  from one_message [OF h, of "[0x90 + (orElse (note_args.channel a) 1 - 1), n,
      orElse (note_args.velocity a) 64]"] show ?thesis
    using a h by (auto simp: midi_note_on_def Let_def)
qed

lemma midi_note_off_succeeds:
  assumes "wellFormed (Midi_note_off (Some a))"
    and "\<forall>q \<in> set (portsOf (Midi_note_off (Some a))). handleFor e st q \<noteq> None"
  shows "\<exists>h st'. handleFor e st (the (note_args.port a)) = Some h
           \<and> midi_note_off e a st
               = (Inr (''Note Off: note '' @ showInt (the (note_args.note a)) @ '', velocity ''
                         @ showInt (orElse (note_args.velocity a) 64) @ '', channel ''
                         @ showInt (orElse (note_args.channel a) 1)), st')
           \<and> effects st' = effects st @ firstOpen st (the (note_args.port a)) h
               @ [Sent (the (note_args.port a)) h
                    [0x80 + (orElse (note_args.channel a) 1 - 1), the (note_args.note a),
                     orElse (note_args.velocity a) 64]]"
proof -
  obtain p n where a: "note_args.port a = Some p" "p \<noteq> []" "note_args.note a = Some n"
    using assms(1) by (cases "note_args.port a") auto
  obtain h where h: "handleFor e st p = Some h"
    using assms(2) a by auto
  from one_message [OF h, of "[0x80 + (orElse (note_args.channel a) 1 - 1), n,
      orElse (note_args.velocity a) 64]"] show ?thesis
    using a h by (auto simp: midi_note_off_def Let_def)
qed

lemma midi_control_change_succeeds:
  assumes "wellFormed (Midi_control_change (Some a))"
    and "\<forall>q \<in> set (portsOf (Midi_control_change (Some a))). handleFor e st q \<noteq> None"
  shows "\<exists>h st'. handleFor e st (the (control_change_args.port a)) = Some h
           \<and> midi_control_change e a st
               = (Inr (''CC: controller '' @ showInt (the (control_change_args.controller a))
                         @ '', value '' @ showInt (the (control_change_args.value a))
                         @ '', channel '' @ showInt (orElse (control_change_args.channel a) 1)),
                  st')
           \<and> effects st' = effects st @ firstOpen st (the (control_change_args.port a)) h
               @ [Sent (the (control_change_args.port a)) h
                    [0xB0 + (orElse (control_change_args.channel a) 1 - 1),
                     the (control_change_args.controller a),
                     the (control_change_args.value a)]]"
proof -
  obtain p k x where a: "control_change_args.port a = Some p" "p \<noteq> []"
    "control_change_args.controller a = Some k" "control_change_args.value a = Some x"
    using assms(1) by (cases "control_change_args.port a") auto
  obtain h where h: "handleFor e st p = Some h"
    using assms(2) a by auto
  from one_message [OF h, of "[0xB0 + (orElse (control_change_args.channel a) 1 - 1), k, x]"]
  show ?thesis
    using a h by (auto simp: midi_control_change_def Let_def)
qed

lemma midi_program_change_succeeds:
  assumes "wellFormed (Midi_program_change (Some a))"
    and "\<forall>q \<in> set (portsOf (Midi_program_change (Some a))). handleFor e st q \<noteq> None"
  shows "\<exists>h st'. handleFor e st (the (program_change_args.port a)) = Some h
           \<and> midi_program_change e a st
               = (Inr (''Program Change: program ''
                         @ showInt (the (program_change_args.program a))
                         @ '', channel '' @ showInt (orElse (program_change_args.channel a) 1)),
                  st')
           \<and> effects st' = effects st @ firstOpen st (the (program_change_args.port a)) h
               @ [Sent (the (program_change_args.port a)) h
                    [0xC0 + (orElse (program_change_args.channel a) 1 - 1),
                     the (program_change_args.program a)]]"
proof -
  obtain p g where a: "program_change_args.port a = Some p" "p \<noteq> []"
    "program_change_args.program a = Some g"
    using assms(1) by (cases "program_change_args.port a") auto
  obtain h where h: "handleFor e st p = Some h"
    using assms(2) a by auto
  from one_message [OF h, of "[0xC0 + (orElse (program_change_args.channel a) 1 - 1), g]"]
  show ?thesis
    using a h by (auto simp: midi_program_change_def Let_def)
qed

lemma midi_play_note_succeeds:
  assumes "wellFormed (Midi_play_note (Some a))"
    and "\<forall>q \<in> set (portsOf (Midi_play_note (Some a))). handleFor e st q \<noteq> None"
  shows "\<exists>text st'. midi_play_note e a st = (Inr text, st')"
proof -
  obtain p n where a: "play_note_args.port a = Some p" "p \<noteq> []"
    "play_note_args.note a = Some n"
    using assms(1) by (cases "play_note_args.port a") auto
  obtain h where h: "handleFor e st p = Some h"
    using assms(2) a by auto
  from one_message [OF h, of "[0x90 + (orElse (play_note_args.channel a) 1 - 1), n,
      orElse (play_note_args.velocity a) 64]"] show ?thesis
    using a by (auto simp: midi_play_note_def Let_def)
qed

lemma midi_pitch_bend_succeeds:
  assumes "wellFormed (Midi_pitch_bend (Some a))"
    and "\<forall>q \<in> set (portsOf (Midi_pitch_bend (Some a))). handleFor e st q \<noteq> None"
  shows "\<exists>text st'. midi_pitch_bend e a st = (Inr text, st')"
proof -
  obtain p x where a: "pitch_bend_args.port a = Some p" "p \<noteq> []"
    "pitch_bend_args.value a = Some x"
    using assms(1) by (cases "pitch_bend_args.port a") auto
  obtain h where h: "handleFor e st p = Some h"
    using assms(2) a by auto
  from one_message [OF h, of "[0xE0 + (orElse (pitch_bend_args.channel a) 1 - 1),
      bitAnd (x + 8192) 0x7F, bitAnd (shiftRight (x + 8192) 7) 0x7F]"] show ?thesis
    using a by (auto simp: midi_pitch_bend_def Let_def)
qed

lemma midi_play_sequence_succeeds:
  assumes "wellFormed (Midi_play_sequence (Some a))"
    and "\<forall>q \<in> set (portsOf (Midi_play_sequence (Some a))). handleFor e st q \<noteq> None"
  shows "\<exists>text st'. midi_play_sequence e a st = (Inr text, st')"
proof -
  obtain p items where a: "play_sequence_args.port a = Some p" "p \<noteq> []"
    "play_sequence_args.notes a = Some items" "items \<noteq> []"
    "list_all (\<lambda>i. sequence_note.note i \<noteq> None) items"
    using assms(1)
    by (cases "play_sequence_args.port a"; cases "play_sequence_args.notes a") auto
  obtain h where h: "handleFor e st p = Some h"
    using assms(2) a by auto
  obtain st' where "playSequenceLoop e p (0x90 + (orElse (play_sequence_args.channel a) 1 - 1))
      (0x80 + (orElse (play_sequence_args.channel a) 1 - 1)) items 0 st
      = (Inr (0 + sum_list (map (\<lambda>i. orElse (sequence_note.duration i) 500) items)), st')"
    using playSequenceLoop_ok [OF h a(5)] by blast
  then show ?thesis
    using a by (simp add: midi_play_sequence_def Let_def)
qed

lemma midi_play_chord_succeeds:
  assumes "wellFormed (Midi_play_chord (Some a))"
    and "\<forall>q \<in> set (portsOf (Midi_play_chord (Some a))). handleFor e st q \<noteq> None"
  shows "\<exists>text st'. midi_play_chord e a st = (Inr text, st')"
proof -
  obtain p ns where a: "play_chord_args.port a = Some p" "p \<noteq> []"
    "play_chord_args.notes a = Some ns" "ns \<noteq> []"
    using assms(1)
    by (cases "play_chord_args.port a"; cases "play_chord_args.notes a") auto
  obtain h where h: "handleFor e st p = Some h"
    using assms(2) a by auto
  let ?v = "orElse (play_chord_args.velocity a) 64"
  let ?c = "orElse (play_chord_args.channel a) 1 - 1"
  obtain st1 where s1: "sendNotes e p (0x90 + ?c) ?v ns st = (Inr (), st1)"
    and c1: "activeOutputs st1 = (activeOutputs st)(p \<mapsto> h)"
    using sendNotes_ok [OF h, of "0x90 + ?c" ?v ns] a(4) by auto
  let ?st2 = "sleep (of_int (orElse (play_chord_args.duration a) 500)) st1"
  have "handleFor e ?st2 p = Some h"
    by (rule handleFor_cached) (simp add: c1)
  then obtain st3 where s3: "sendNotes e p (0x80 + ?c) ?v ns ?st2 = (Inr (), st3)"
    using sendNotes_ok [of e ?st2 p h "0x80 + ?c" ?v ns] by blast
  show ?thesis
    using a s1 s3 by (simp add: midi_play_chord_def Let_def)
qed

lemma midi_play_song_succeeds:
  assumes "wellFormed (Midi_play_song (Some a))"
    and "\<forall>q \<in> set (portsOf (Midi_play_song (Some a))). handleFor e st q \<noteq> None"
  shows "\<forall>err. fst (midi_play_song e sched a st) \<noteq> Some (Inl err)"
    and "runsToEnd (Midi_play_song (Some a)) sched \<Longrightarrow>
           \<exists>text. fst (midi_play_song e sched a st) = Some (Inr text)"
proof -
  obtain p ts where a: "play_song_args.port a = Some p" "p \<noteq> []"
    "play_song_args.tracks a = Some ts" "ts \<noteq> []" "list_all trackComplete ts"
    using assms(1)
    by (cases "play_song_args.port a"; cases "play_song_args.tracks a") auto
  define b where "b = play_song_args.bpm a"
  have rec: "a = \<lparr> play_song_args.port = Some p, play_song_args.bpm = b,
                   play_song_args.tracks = Some ts \<rparr>"
    using a b_def by (cases a) simp
  have ports: "\<forall>t \<in> set ts. handleFor e st (orElse (track.port t) p) \<noteq> None"
    using assms(2) a by simp
  note run = complete_song_run [OF a(5) ports, where bd = "beatDurationOf (orElse b 120)"
      and sched = sched]
  note song = midi_play_song_run [OF a(2,4), of e sched b st, folded rec]
  show "\<forall>err. fst (midi_play_song e sched a st) \<noteq> Some (Inl err)"
    unfolding song by (simp add: Let_def run(1))
  show "\<exists>text. fst (midi_play_song e sched a st) = Some (Inr text)"
    if "runsToEnd (Midi_play_song (Some a)) sched"
  proof -
    have enough: "resumesEnough (map (trackActions p (beatDurationOf (orElse b 120))) ts) sched"
      using that a by (simp add: b_def)
    have "list_all finished (threads (runSchedule e sched
            (startSong p (beatDurationOf (orElse b 120)) ts st)))"
      using run(2) run(3) [OF enough] by (simp add: list_all_length)
    then show ?thesis
      unfolding song by (simp add: Let_def run(1))
  qed
qed

text \<open>
  C6 claims that a request with a numeric field outside its declared range is rejected
  before anything is sent. The handlers check only that required fields are present: a
  note-on for channel 17 is accepted, and the status byte \<open>0x90 + 16 = 0xA0\<close> goes out.
\<close>

theorem range_error_counterexample:
  "\<not> withinSchema (Midi_note_on (Some \<lparr> note_args.port = Some ''loopMIDI'',
            note_args.note = Some 60, note_args.velocity = None,
            note_args.channel = Some 17 \<rparr>))
   \<and> fst (callTool testEnv [] (Midi_note_on (Some \<lparr> note_args.port = Some ''loopMIDI'',
            note_args.note = Some 60, note_args.velocity = None,
            note_args.channel = Some 17 \<rparr>)) initial)
       = Some (Inr ''Note On: note 60, velocity 64, channel 17'')
   \<and> effects (snd (callTool testEnv [] (Midi_note_on (Some \<lparr> note_args.port = Some ''loopMIDI'',
            note_args.note = Some 60, note_args.velocity = None,
            note_args.channel = Some 17 \<rparr>)) initial))
       = [Opened ''loopMIDI'' 7, Sent ''loopMIDI'' 7 [0xA0, 60, 64]]
   \<and> effects initial = []"
  by (simp add: settled_def midi_note_on_def Let_def sendAndLog_def sendMessage_def
      testEnv_def initial_def showInt_def numberToString_def natToString.simps digitChar_def)

text \<open>
  C6, as the code has it. No handler compares a number with a range, so a value outside
  its declared range raises no error. A request that has its arguments object, passes the
  presence test at the head of its handler and whose list items have the fields their
  handler reads, sent to ports that are cached or can be opened, does not fail under any
  schedule, whatever integers its numeric fields hold, and returns its success text once
  the schedule has run it to its end (at once for every tool but the song). The note-on,
  note-off, control-change and program-change handlers then send the one message built
  from the values as given, with status byte \<open>base + (channel - 1)\<close>.
\<close>

theorem no_range_check:
  assumes "wellFormed req" and "\<forall>q \<in> set (portsOf req). handleFor e st q \<noteq> None"
  shows "(\<forall>err. fst (callTool e sched req st) \<noteq> Some (Inl err))
       \<and> (runsToEnd req sched \<longrightarrow> (\<exists>text. fst (callTool e sched req st) = Some (Inr text)))
       \<and> (req = Midi_note_on (Some \<lparr> note_args.port = Some p, note_args.note = Some n,
                   note_args.velocity = v, note_args.channel = ch \<rparr>) \<longrightarrow>
            (\<exists>h st'. handleFor e st p = Some h
               \<and> callTool e sched req st
                   = (Some (Inr (''Note On: note '' @ showInt n @ '', velocity ''
                                  @ showInt (orElse v 64) @ '', channel ''
                                  @ showInt (orElse ch 1))), st')
               \<and> effects st' = effects st @ firstOpen st p h
                     @ [Sent p h [0x90 + (orElse ch 1 - 1), n, orElse v 64]]))
       \<and> (req = Midi_note_off (Some \<lparr> note_args.port = Some p, note_args.note = Some n,
                   note_args.velocity = v, note_args.channel = ch \<rparr>) \<longrightarrow>
            (\<exists>h st'. handleFor e st p = Some h
               \<and> callTool e sched req st
                   = (Some (Inr (''Note Off: note '' @ showInt n @ '', velocity ''
                                  @ showInt (orElse v 64) @ '', channel ''
                                  @ showInt (orElse ch 1))), st')
               \<and> effects st' = effects st @ firstOpen st p h
                     @ [Sent p h [0x80 + (orElse ch 1 - 1), n, orElse v 64]]))
       \<and> (req = Midi_control_change (Some \<lparr> control_change_args.port = Some p,
                   control_change_args.controller = Some k,
                   control_change_args.value = Some x,
                   control_change_args.channel = ch \<rparr>) \<longrightarrow>
            (\<exists>h st'. handleFor e st p = Some h
               \<and> callTool e sched req st
                   = (Some (Inr (''CC: controller '' @ showInt k @ '', value '' @ showInt x
                                  @ '', channel '' @ showInt (orElse ch 1))), st')
               \<and> effects st' = effects st @ firstOpen st p h
                     @ [Sent p h [0xB0 + (orElse ch 1 - 1), k, x]]))
       \<and> (req = Midi_program_change (Some \<lparr> program_change_args.port = Some p,
                   program_change_args.program = Some g,
                   program_change_args.channel = ch \<rparr>) \<longrightarrow>
            (\<exists>h st'. handleFor e st p = Some h
               \<and> callTool e sched req st
                   = (Some (Inr (''Program Change: program '' @ showInt g @ '', channel ''
                                  @ showInt (orElse ch 1))), st')
               \<and> effects st' = effects st @ firstOpen st p h
                     @ [Sent p h [0xC0 + (orElse ch 1 - 1), g]]))"
proof -
  have settles: "\<exists>text. fst (callTool e sched req st) = Some (Inr text)"
    if "\<forall>a. req \<noteq> Midi_play_song (Some a)"
  proof (cases req)
    case Midi_list_ports
    then show ?thesis by simp
  next
    case (Midi_send arg)
    then obtain a where a: "req = Midi_send (Some a)"
      using assms(1) by (cases arg) auto
    from midi_send_succeeds [OF assms [unfolded a]] show ?thesis
      unfolding a by (auto simp: settled_def)
  next
    case (Midi_note_on arg)
    then obtain a where a: "req = Midi_note_on (Some a)"
      using assms(1) by (cases arg) auto
    from midi_note_on_succeeds [OF assms [unfolded a]] show ?thesis
      unfolding a by (auto simp: settled_def)
  next
    case (Midi_note_off arg)
    then obtain a where a: "req = Midi_note_off (Some a)"
      using assms(1) by (cases arg) auto
    from midi_note_off_succeeds [OF assms [unfolded a]] show ?thesis
      unfolding a by (auto simp: settled_def)
  next
    case (Midi_play_note arg)
    then obtain a where a: "req = Midi_play_note (Some a)"
      using assms(1) by (cases arg) auto
    from midi_play_note_succeeds [OF assms [unfolded a]] show ?thesis
      unfolding a by (auto simp: settled_def)
  next
    case (Midi_control_change arg)
    then obtain a where a: "req = Midi_control_change (Some a)"
      using assms(1) by (cases arg) auto
    from midi_control_change_succeeds [OF assms [unfolded a]] show ?thesis
      unfolding a by (auto simp: settled_def)
  next
    case (Midi_program_change arg)
    then obtain a where a: "req = Midi_program_change (Some a)"
      using assms(1) by (cases arg) auto
    from midi_program_change_succeeds [OF assms [unfolded a]] show ?thesis
      unfolding a by (auto simp: settled_def)
  next
    case (Midi_pitch_bend arg)
    then obtain a where a: "req = Midi_pitch_bend (Some a)"
      using assms(1) by (cases arg) auto
    from midi_pitch_bend_succeeds [OF assms [unfolded a]] show ?thesis
      unfolding a by (auto simp: settled_def)
  next
    case (Midi_play_sequence arg)
    then obtain a where a: "req = Midi_play_sequence (Some a)"
      using assms(1) by (cases arg) auto
    from midi_play_sequence_succeeds [OF assms [unfolded a]] show ?thesis
      unfolding a by (auto simp: settled_def)
  next
    case (Midi_play_chord arg)
    then obtain a where a: "req = Midi_play_chord (Some a)"
      using assms(1) by (cases arg) auto
    from midi_play_chord_succeeds [OF assms [unfolded a]] show ?thesis
      unfolding a by (auto simp: settled_def)
  next
    case (Midi_play_song arg)
    then show ?thesis
      using assms(1) that by (cases arg) auto
  next
    case (Unknown_tool name)
    then show ?thesis
      using assms(1) by simp
  qed
  have general: "(\<forall>err. fst (callTool e sched req st) \<noteq> Some (Inl err))
       \<and> (runsToEnd req sched \<longrightarrow> (\<exists>text. fst (callTool e sched req st) = Some (Inr text)))"
  proof (cases "\<exists>a. req = Midi_play_song (Some a)")
    case True
    then obtain a where a: "req = Midi_play_song (Some a)"
      by blast
    note song = midi_play_song_succeeds [OF assms [unfolded a], of sched]
    show ?thesis
      unfolding a using song by simp
  next
    case False
    then obtain reply where "fst (callTool e sched req st) = Some (Inr reply)"
      using settles by blast
    then show ?thesis
      by simp
  qed
  have noteOn: "\<exists>h st'. handleFor e st p = Some h
               \<and> callTool e sched req st
                   = (Some (Inr (''Note On: note '' @ showInt n @ '', velocity ''
                                  @ showInt (orElse v 64) @ '', channel ''
                                  @ showInt (orElse ch 1))), st')
               \<and> effects st' = effects st @ firstOpen st p h
                     @ [Sent p h [0x90 + (orElse ch 1 - 1), n, orElse v 64]]"
    if a: "req = Midi_note_on (Some \<lparr> note_args.port = Some p, note_args.note = Some n,
                   note_args.velocity = v, note_args.channel = ch \<rparr>)"
    using midi_note_on_succeeds [OF assms [unfolded a]] unfolding a
    by (auto simp: settled_def)
  have noteOff: "\<exists>h st'. handleFor e st p = Some h
               \<and> callTool e sched req st
                   = (Some (Inr (''Note Off: note '' @ showInt n @ '', velocity ''
                                  @ showInt (orElse v 64) @ '', channel ''
                                  @ showInt (orElse ch 1))), st')
               \<and> effects st' = effects st @ firstOpen st p h
                     @ [Sent p h [0x80 + (orElse ch 1 - 1), n, orElse v 64]]"
    if a: "req = Midi_note_off (Some \<lparr> note_args.port = Some p, note_args.note = Some n,
                   note_args.velocity = v, note_args.channel = ch \<rparr>)"
    using midi_note_off_succeeds [OF assms [unfolded a]] unfolding a
    by (auto simp: settled_def)
  have cc: "\<exists>h st'. handleFor e st p = Some h
               \<and> callTool e sched req st
                   = (Some (Inr (''CC: controller '' @ showInt k @ '', value '' @ showInt x
                                  @ '', channel '' @ showInt (orElse ch 1))), st')
               \<and> effects st' = effects st @ firstOpen st p h
                     @ [Sent p h [0xB0 + (orElse ch 1 - 1), k, x]]"
    if a: "req = Midi_control_change (Some \<lparr> control_change_args.port = Some p,
                   control_change_args.controller = Some k,
                   control_change_args.value = Some x,
                   control_change_args.channel = ch \<rparr>)"
    using midi_control_change_succeeds [OF assms [unfolded a]] unfolding a
    by (auto simp: settled_def)
  have pc: "\<exists>h st'. handleFor e st p = Some h
               \<and> callTool e sched req st
                   = (Some (Inr (''Program Change: program '' @ showInt g @ '', channel ''
                                  @ showInt (orElse ch 1))), st')
               \<and> effects st' = effects st @ firstOpen st p h
                     @ [Sent p h [0xC0 + (orElse ch 1 - 1), g]]"
    if a: "req = Midi_program_change (Some \<lparr> program_change_args.port = Some p,
                   program_change_args.program = Some g,
                   program_change_args.channel = ch \<rparr>)"
    using midi_program_change_succeeds [OF assms [unfolded a]] unfolding a
    by (auto simp: settled_def)
  show ?thesis
    using general noteOn noteOff cc pc by blast
qed

theorem no_range_check_witness:
  "wellFormed (Midi_control_change (Some \<lparr> control_change_args.port = Some ''loopMIDI'',
            control_change_args.controller = Some 7, control_change_args.value = Some 200,
            control_change_args.channel = Some 0 \<rparr>))
   \<and> portsOf (Midi_control_change (Some \<lparr> control_change_args.port = Some ''loopMIDI'',
            control_change_args.controller = Some 7, control_change_args.value = Some 200,
            control_change_args.channel = Some 0 \<rparr>)) = [''loopMIDI'']
   \<and> handleFor testEnv initial ''loopMIDI'' = Some 7
   \<and> \<not> withinSchema (Midi_control_change (Some \<lparr> control_change_args.port = Some ''loopMIDI'',
            control_change_args.controller = Some 7, control_change_args.value = Some 200,
            control_change_args.channel = Some 0 \<rparr>))
   \<and> fst (callTool testEnv [] (Midi_control_change (Some
            \<lparr> control_change_args.port = Some ''loopMIDI'',
              control_change_args.controller = Some 7, control_change_args.value = Some 200,
              control_change_args.channel = Some 0 \<rparr>)) initial)
       = Some (Inr ''CC: controller 7, value 200, channel 0'')
   \<and> effects (snd (callTool testEnv [] (Midi_control_change (Some
            \<lparr> control_change_args.port = Some ''loopMIDI'',
              control_change_args.controller = Some 7, control_change_args.value = Some 200,
              control_change_args.channel = Some 0 \<rparr>)) initial))
       = [Opened ''loopMIDI'' 7, Sent ''loopMIDI'' 7 [0xAF, 7, 200]]"
proof -
  define req where "req = Midi_control_change (Some
            \<lparr> control_change_args.port = Some ''loopMIDI'',
              control_change_args.controller = Some 7, control_change_args.value = Some 200,
              control_change_args.channel = Some 0 \<rparr>)"
  have wf: "wellFormed req"
    by (simp add: req_def)
  have ports: "portsOf req = [''loopMIDI'']"
    by (simp add: req_def)
  have opens: "\<forall>q \<in> set (portsOf req). handleFor testEnv initial q \<noteq> None"
    unfolding ports by (simp add: handleFor_testEnv_initial)
  have t: "''CC: controller '' @ showInt 7 @ '', value '' @ showInt 200 @ '', channel ''
             @ showInt (orElse (Some 0) 1)
           = ''CC: controller 7, value 200, channel 0''"
    by code_simp
  note T = no_range_check [OF wf opens, where sched = "[]" and p = "''loopMIDI''" and k = 7
      and x = 200 and ch = "Some 0"]
  from T req_def obtain h st' where h: "handleFor testEnv initial ''loopMIDI'' = Some h"
    and c: "callTool testEnv [] req initial
        = (Some (Inr (''CC: controller '' @ showInt 7 @ '', value '' @ showInt 200
                       @ '', channel '' @ showInt (orElse (Some 0) 1))), st')"
    and e: "effects st' = effects initial @ firstOpen initial ''loopMIDI'' h
              @ [Sent ''loopMIDI'' h [0xB0 + (orElse (Some 0) 1 - 1), 7, 200]]"
    by blast
  have h7: "h = 7"
    using h by (simp add: handleFor_testEnv_initial)
  have "fst (callTool testEnv [] req initial) = Some (Inr ''CC: controller 7, value 200, channel 0'')"
    by (simp only: c t fst_conv)
  moreover have "effects (snd (callTool testEnv [] req initial))
       = [Opened ''loopMIDI'' 7, Sent ''loopMIDI'' 7 [0xAF, 7, 200]]"
    unfolding c snd_conv e h7 by (simp add: firstOpen_initial)
  moreover have "\<not> withinSchema req"
    by (simp add: req_def)
  ultimately show ?thesis
    unfolding req_def [symmetric]
    using wf ports handleFor_testEnv_initial by blast
qed

end
